theory Spec2Isabelle
  imports Complex_Main "HOL-Library.AList"
begin

section \<open>Values exchanged with the Graph API\<close>

text \<open>
  Everything the client receives is the result of \<^verbatim>\<open>response.json()\<close>: a Python value
  built from \<^verbatim>\<open>None\<close>, booleans, integers, floats, strings, lists and dictionaries.
  A dictionary is an association list read with \<^const>\<open>map_of\<close> and written with
  \<^const>\<open>AList.update\<close> (an existing key keeps its place, a new key goes to the end, as
  in Python); the parser returns dictionaries whose keys are distinct. A float is
  represented by the exact value of the decimal text it was read from; binary rounding is
  not modelled.
\<close>

datatype json =
    JNull
  | JBool bool
  | JInt int
  | JFloat rat
  | JStr string
  | JArr "json list"
  | JObj "(string \<times> json) list"

type_synonym params = "(string \<times> json) list"

text \<open>A request as \<^verbatim>\<open>requests.get(url, params=request_params, timeout=30)\<close> sends it.\<close>

type_synonym request = "string \<times> params"

text \<open>
  The \<^verbatim>\<open>requests.Response\<close> object: the status line, the URL the library finally
  asked for, and the body as \<^verbatim>\<open>response.json()\<close> reads it (\<open>None\<close> when the body is
  not JSON, where \<^verbatim>\<open>response.json()\<close> raises).
\<close>

record response =
  status_code :: nat
  reason :: string
  resp_url :: string
  json_body :: "json option"

text \<open>
  \<^verbatim>\<open>requests.get\<close> either raises (timeout, DNS, connection reset: subclasses of
  \<^verbatim>\<open>RequestException\<close> other than \<^verbatim>\<open>HTTPError\<close>) or returns a response.
\<close>

datatype http_outcome = Raises string | Returns response

datatype error =
    RequestException string
  | TransportError string
  | JSONDecodeError
  | TypeError
  | AttributeError
  | KeyError
  | ValueError

text \<open>
  What the client does not contain itself: its two attributes, the upstream, and the
  library functions it calls. The upstream answers the last request of a history of
  requests, so it may be stateful. \<open>urlparse_query u\<close> is
  \<^verbatim>\<open>urllib.parse.urlparse(u).query\<close>, \<open>parse_qsl\<close> is \<^verbatim>\<open>urllib.parse.parse_qsl\<close>,
  \<open>py_repr\<close> is the text Python prints for a float, a list or a dictionary, and
  \<open>json_dumps\<close> is \<^verbatim>\<open>json.dumps\<close>.
\<close>

record env =
  base_url :: string
  access_token :: string
  upstream :: "request list \<Rightarrow> http_outcome"
  urlparse_query :: "json \<Rightarrow> error + string"
  parse_qsl :: "string \<Rightarrow> (string \<times> string) list"
  py_repr :: "json \<Rightarrow> string"
  json_dumps :: "json \<Rightarrow> string"

section \<open>Python operations on these values\<close>

fun digit_char :: "nat \<Rightarrow> char" where
  "digit_char n = (''0123456789'' ! (n mod 10))"

fun str_nat :: "nat \<Rightarrow> string" where
  "str_nat n = (if n < 10 then [digit_char n] else str_nat (n div 10) @ [digit_char n])"

definition str_int :: "int \<Rightarrow> string" where
  "str_int i = (if i < 0 then CHR ''-'' # str_nat (nat (- i)) else str_nat (nat i))"

text \<open>\<^verbatim>\<open>str(x)\<close>, which is what an f-string field \<^verbatim>\<open>{x}\<close> formats.\<close>

fun py_str :: "env \<Rightarrow> json \<Rightarrow> string" where
  "py_str env JNull = ''None''"
| "py_str env (JBool b) = (if b then ''True'' else ''False'')"
| "py_str env (JInt i) = str_int i"
| "py_str env (JStr s) = s"
| "py_str env v = py_repr env v"

text \<open>\<^verbatim>\<open>needle in haystack\<close> for two strings: a substring test.\<close>

fun is_substring :: "string \<Rightarrow> string \<Rightarrow> bool" where
  "is_substring x [] = (x = [])"
| "is_substring x (c # cs) = (take (length x) (c # cs) = x \<or> is_substring x cs)"

text \<open>\<^verbatim>\<open>key in v\<close> for a string \<open>key\<close>.\<close>

fun py_in :: "string \<Rightarrow> json \<Rightarrow> error + bool" where
  "py_in k (JObj kvs) = Inr (map_of kvs k \<noteq> None)"
| "py_in k (JArr xs) = Inr (JStr k \<in> set xs)"
| "py_in k (JStr s) = Inr (is_substring k s)"
| "py_in k v = Inl TypeError"

text \<open>\<^verbatim>\<open>v[key]\<close> for a string \<open>key\<close> that the code has just found \<^verbatim>\<open>in v\<close>.\<close>

fun py_getitem :: "json \<Rightarrow> string \<Rightarrow> error + json" where
  "py_getitem (JObj kvs) k = (case map_of kvs k of Some x \<Rightarrow> Inr x | None \<Rightarrow> Inl KeyError)"
| "py_getitem v k = Inl TypeError"

text \<open>\<^verbatim>\<open>v.get(key, default)\<close>: only a dictionary has the method.\<close>

fun py_get :: "json \<Rightarrow> string \<Rightarrow> json \<Rightarrow> error + json" where
  "py_get (JObj kvs) k d = Inr (case map_of kvs k of Some x \<Rightarrow> x | None \<Rightarrow> d)"
| "py_get v k d = Inl AttributeError"

text \<open>
  \<^verbatim>\<open>all_data.extend(v)\<close>: the elements of a list, the keys of a dictionary, the
  characters of a string; anything else is not iterable.
\<close>

fun py_extend :: "json list \<Rightarrow> json \<Rightarrow> error + json list" where
  "py_extend all_data (JArr xs) = Inr (all_data @ xs)"
| "py_extend all_data (JObj kvs) = Inr (all_data @ map JStr (map fst kvs))"
| "py_extend all_data (JStr s) = Inr (all_data @ map (\<lambda>c. JStr [c]) s)"
| "py_extend all_data v = Inl TypeError"

text \<open>\<^verbatim>\<open>dict(pairs)\<close>: a later pair with the same key replaces the earlier value.\<close>

definition dict :: "(string \<times> string) list \<Rightarrow> params" where
  "dict pairs = foldl (\<lambda>d (k, v). AList.update k (JStr v) d) [] pairs"

section \<open>The client: one request\<close>

text \<open>\<^verbatim>\<open>response.raise_for_status()\<close> raises for the 4xx and 5xx statuses only.\<close>

definition raises_for_status :: "nat \<Rightarrow> bool" where
  "raises_for_status st \<longleftrightarrow> 400 \<le> st \<and> st < 600"

text \<open>The text of the \<^verbatim>\<open>HTTPError\<close> that \<^verbatim>\<open>raise_for_status\<close> builds: \<^verbatim>\<open>str(e)\<close>.\<close>

definition http_error_msg :: "response \<Rightarrow> string" where
  "http_error_msg r =
     str_nat (status_code r)
       @ (if status_code r < 500 then '' Client Error: '' else '' Server Error: '')
       @ reason r @ '' for url: '' @ resp_url r"

text \<open>
  Lines 80 to 91 of \<^verbatim>\<open>_make_request\<close>: the message of the exception raised for an
  HTTP error. Any exception inside the inner \<^verbatim>\<open>try\<close> leaves \<open>error_msg\<close> as it was.
\<close>

definition error_message :: "env \<Rightarrow> response \<Rightarrow> string" where
  "error_message env r =
     (let e = http_error_msg r;
          error_msg = ''Facebook API request failed: '' @ e
      in case json_body r of
           None \<Rightarrow> error_msg
         | Some error_json \<Rightarrow>
             (case py_in ''error'' error_json of
                Inl _ \<Rightarrow> error_msg
              | Inr False \<Rightarrow> error_msg
              | Inr True \<Rightarrow>
                  (case py_getitem error_json ''error'' of
                     Inl _ \<Rightarrow> error_msg
                   | Inr error_detail \<Rightarrow>
                       (case py_get error_detail ''code'' (JStr ''Unknown'') of
                          Inl _ \<Rightarrow> error_msg
                        | Inr code \<Rightarrow>
                            (case py_get error_detail ''message'' (JStr e) of
                               Inl _ \<Rightarrow> error_msg
                             | Inr message \<Rightarrow>
                                 (let error_msg = ''Facebook API Error '' @ py_str env code
                                                    @ '': '' @ py_str env message
                                  in case py_in ''error_subcode'' error_detail of
                                       Inl _ \<Rightarrow> error_msg
                                     | Inr False \<Rightarrow> error_msg
                                     | Inr True \<Rightarrow>
                                         (case py_getitem error_detail ''error_subcode'' of
                                            Inl _ \<Rightarrow> error_msg
                                          | Inr subcode \<Rightarrow>
                                              error_msg @ '' (Subcode: ''
                                                @ py_str env subcode @ '')'')))))))"

text \<open>
  \<^verbatim>\<open>_make_request(endpoint, params)\<close>. The state is the history of the requests sent
  so far; the request it sends is added to it. A request that reaches the timeout of 30
  seconds is one that raises. An exception that is not an \<^verbatim>\<open>HTTPError\<close> is not caught:
  what \<^verbatim>\<open>requests.get\<close> raises, and the decoding error of \<^verbatim>\<open>response.json()\<close> on a
  response that \<^verbatim>\<open>raise_for_status\<close> lets through.
\<close>

definition make_request ::
  "env \<Rightarrow> request list \<Rightarrow> string \<Rightarrow> params option \<Rightarrow> (error + json) \<times> request list" where
  "make_request env sent endpoint params =
     (let url = base_url env @ endpoint;
          request_params = (case params of None \<Rightarrow> [] | Some p \<Rightarrow> p);
          request_params = AList.update ''access_token'' (JStr (access_token env)) request_params;
          sent = sent @ [(url, request_params)]
      in case upstream env sent of
           Raises msg \<Rightarrow> (Inl (TransportError msg), sent)
         | Returns r \<Rightarrow>
             if raises_for_status (status_code r)
             then (Inl (RequestException (error_message env r)), sent)
             else (case json_body r of
                     None \<Rightarrow> (Inl JSONDecodeError, sent)
                   | Some v \<Rightarrow> (Inr v, sent)))"

section \<open>The client: following the pages\<close>

text \<open>The test of the \<^verbatim>\<open>while\<close> loop: \<^verbatim>\<open>'paging' in response and 'next' in response['paging']\<close>.\<close>

definition has_next :: "json \<Rightarrow> error + bool" where
  "has_next response =
     (case py_in ''paging'' response of
        Inl e \<Rightarrow> Inl e
      | Inr False \<Rightarrow> Inr False
      | Inr True \<Rightarrow>
          (case py_getitem response ''paging'' of
             Inl e \<Rightarrow> Inl e
           | Inr paging \<Rightarrow> py_in ''next'' paging))"

text \<open>Lines 122 to 124: the parameters of the next request, read from the \<open>next\<close> URL.\<close>

definition next_params :: "env \<Rightarrow> json \<Rightarrow> error + params" where
  "next_params env response =
     (case py_getitem response ''paging'' of
        Inl e \<Rightarrow> Inl e
      | Inr paging \<Rightarrow>
          (case py_getitem paging ''next'' of
             Inl e \<Rightarrow> Inl e
           | Inr next_url \<Rightarrow>
               (case urlparse_query env next_url of
                  Inl e \<Rightarrow> Inl e
                | Inr query \<Rightarrow> Inr (dict (parse_qsl env query)))))"

text \<open>
  The \<^verbatim>\<open>while\<close> loop of \<^verbatim>\<open>_make_paginated_request\<close>. Nothing bounds the number of
  pages, so the loop may not return: \<open>None\<close> is that case.
\<close>

partial_function (option) follow_pages ::
  "env \<Rightarrow> string \<Rightarrow> request list \<Rightarrow> json list \<Rightarrow> json \<Rightarrow> ((error + json) \<times> request list) option" where
  "follow_pages env endpoint sent all_data response =
     (case has_next response of
        Inl e \<Rightarrow> Some (Inl e, sent)
      | Inr again \<Rightarrow>
          if \<not> again then Some (Inr (JObj [(''data'', JArr all_data)]), sent)
          else (case next_params env response of
                  Inl e \<Rightarrow> Some (Inl e, sent)
                | Inr ps \<Rightarrow>
                    (case make_request env sent endpoint (Some ps) of
                       (Inl e, sent') \<Rightarrow> Some (Inl e, sent')
                     | (Inr response', sent') \<Rightarrow>
                         (case py_get response' ''data'' (JArr []) of
                            Inl e \<Rightarrow> Some (Inl e, sent')
                          | Inr page \<Rightarrow>
                              (case py_extend all_data page of
                                 Inl e \<Rightarrow> Some (Inl e, sent')
                               | Inr all_data' \<Rightarrow>
                                   follow_pages env endpoint sent' all_data' response')))))"

declare follow_pages.simps [code]

text \<open>\<^verbatim>\<open>_make_paginated_request(endpoint, params)\<close>.\<close>

definition make_paginated_request ::
  "env \<Rightarrow> string \<Rightarrow> request list \<Rightarrow> params option \<Rightarrow> ((error + json) \<times> request list) option" where
  "make_paginated_request env endpoint sent params =
     (case make_request env sent endpoint params of
        (Inl e, sent') \<Rightarrow> Some (Inl e, sent')
      | (Inr response, sent') \<Rightarrow>
          (case py_get response ''data'' (JArr []) of
             Inl e \<Rightarrow> Some (Inl e, sent')
           | Inr page \<Rightarrow>
               (case py_extend [] page of
                  Inl e \<Rightarrow> Some (Inl e, sent')
                | Inr all_data \<Rightarrow> follow_pages env endpoint sent' all_data response)))"

section \<open>The client: the listing and insights operations\<close>

text \<open>\<^verbatim>\<open>sep.join(xs)\<close>.\<close>

fun join :: "string \<Rightarrow> string list \<Rightarrow> string" where
  "join sep [] = []"
| "join sep [x] = x"
| "join sep (x # y # ys) = x @ sep @ join sep (y # ys)"

text \<open>The truth value of an optional list or string: \<^verbatim>\<open>None\<close> and the empty one are false.\<close>

fun truthy :: "'a list option \<Rightarrow> bool" where
  "truthy None = False"
| "truthy (Some xs) = (xs \<noteq> [])"

definition get_ad_accounts ::
  "env \<Rightarrow> request list \<Rightarrow> ((error + json) \<times> request list) option" where
  "get_ad_accounts env sent =
     make_paginated_request env ''/me/adaccounts'' sent
       (Some [(''fields'', JStr ''id,name,account_id,currency,timezone_name,account_status,business'')])"

definition get_campaigns ::
  "env \<Rightarrow> request list \<Rightarrow> string \<Rightarrow> string list option \<Rightarrow> int
     \<Rightarrow> ((error + json) \<times> request list) option" where
  "get_campaigns env sent account_id effective_status limit =
     (let account_id = (if take 4 account_id \<noteq> ''act_'' then ''act_'' @ account_id else account_id);
          params = [(''fields'', JStr ''id,name,status,effective_status,objective,daily_budget,lifetime_budget,created_time,updated_time''),
                    (''limit'', JInt limit)];
          params = (if truthy effective_status
                    then AList.update ''effective_status''
                           (JStr (json_dumps env (JArr (map JStr (the effective_status))))) params
                    else params)
      in make_paginated_request env (''/'' @ account_id @ ''/campaigns'') sent (Some params))"

definition get_ad_sets ::
  "env \<Rightarrow> request list \<Rightarrow> string \<Rightarrow> string list option \<Rightarrow> int
     \<Rightarrow> ((error + json) \<times> request list) option" where
  "get_ad_sets env sent account_id effective_status limit =
     (let account_id = (if take 4 account_id \<noteq> ''act_'' then ''act_'' @ account_id else account_id);
          params = [(''fields'', JStr ''id,name,status,effective_status,daily_budget,lifetime_budget,targeting,created_time,updated_time''),
                    (''limit'', JInt limit)];
          params = (if truthy effective_status
                    then AList.update ''effective_status''
                           (JStr (json_dumps env (JArr (map JStr (the effective_status))))) params
                    else params)
      in make_paginated_request env (''/'' @ account_id @ ''/adsets'') sent (Some params))"

definition get_ads ::
  "env \<Rightarrow> request list \<Rightarrow> string \<Rightarrow> string list option \<Rightarrow> int
     \<Rightarrow> ((error + json) \<times> request list) option" where
  "get_ads env sent account_id effective_status limit =
     (let account_id = (if take 4 account_id \<noteq> ''act_'' then ''act_'' @ account_id else account_id);
          params = [(''fields'', JStr ''id,name,status,effective_status,creative{id,title,body,image_url},created_time,updated_time''),
                    (''limit'', JInt limit)];
          params = (if truthy effective_status
                    then AList.update ''effective_status''
                           (JStr (json_dumps env (JArr (map JStr (the effective_status))))) params
                    else params)
      in make_paginated_request env (''/'' @ account_id @ ''/ads'') sent (Some params))"

text \<open>The arguments of \<^verbatim>\<open>get_account_insights\<close> other than the account id.\<close>

record insights_args =
  start_date :: string
  end_date :: string
  field_list :: "string list"
  level :: string
  breakdowns :: "string list option"
  time_increment :: "string option"
  campaign_ids :: "string list option"
  adset_ids :: "string list option"
  ad_ids :: "string list option"

text \<open>One element of the \<open>filtering\<close> list.\<close>

definition id_filter :: "string \<Rightarrow> string list \<Rightarrow> json" where
  "id_filter field ids =
     JObj [(''field'', JStr field), (''operator'', JStr ''IN''), (''value'', JArr (map JStr ids))]"

definition get_account_insights ::
  "env \<Rightarrow> request list \<Rightarrow> string \<Rightarrow> insights_args \<Rightarrow> int
     \<Rightarrow> ((error + json) \<times> request list) option" where
  "get_account_insights env sent account_id args limit =
     (let account_id = (if take 4 account_id \<noteq> ''act_'' then ''act_'' @ account_id else account_id);
          params = [(''fields'', JStr (join '','' (field_list args))),
                    (''level'', JStr (level args)),
                    (''time_range'', JStr (json_dumps env
                        (JObj [(''since'', JStr (start_date args)), (''until'', JStr (end_date args))]))),
                    (''limit'', JInt limit)];
          params = (if truthy (breakdowns args)
                    then AList.update ''breakdowns'' (JStr (join '','' (the (breakdowns args)))) params
                    else params);
          params = (if truthy (time_increment args)
                    then AList.update ''time_increment'' (JStr (the (time_increment args))) params
                    else params);
          filtering = [];
          filtering = (if truthy (campaign_ids args)
                       then filtering @ [id_filter ''campaign.id'' (the (campaign_ids args))]
                       else filtering);
          filtering = (if truthy (adset_ids args)
                       then filtering @ [id_filter ''adset.id'' (the (adset_ids args))]
                       else filtering);
          filtering = (if truthy (ad_ids args)
                       then filtering @ [id_filter ''ad.id'' (the (ad_ids args))]
                       else filtering);
          params = (if filtering \<noteq> []
                    then AList.update ''filtering'' (JStr (json_dumps env (JArr filtering))) params
                    else params)
      in make_paginated_request env (''/'' @ account_id @ ''/insights'') sent (Some params))"

section \<open>The server: the insights tool\<close>

text \<open>
  \<^verbatim>\<open>get_account_insights\<close> of \<^verbatim>\<open>server.py\<close>. The two methods of the data processor
  it calls are parameters: \<open>process_insights\<close> receives the client's whole result,
  \<open>convert_numeric_fields\<close> what \<open>process_insights\<close> returned. The tool does not pass
  \<open>limit\<close>, so the client's default of 100 applies.
\<close>

definition insights_tool ::
  "(json \<Rightarrow> error + json) \<Rightarrow> (json \<Rightarrow> error + json) \<Rightarrow> env \<Rightarrow> request list \<Rightarrow> string
     \<Rightarrow> insights_args \<Rightarrow> bool \<Rightarrow> ((error + json) \<times> request list) option" where
  "insights_tool process_insights convert_numeric_fields env sent account_id args flatten_actions =
     (case get_account_insights env sent account_id args 100 of
        None \<Rightarrow> None
      | Some (Inl e, sent') \<Rightarrow> Some (Inl e, sent')
      | Some (Inr response, sent') \<Rightarrow>
          if flatten_actions
          then (case process_insights response of
                  Inl e \<Rightarrow> Some (Inl e, sent')
                | Inr flattened \<Rightarrow> Some (convert_numeric_fields flattened, sent'))
          else Some (py_get response ''data'' (JArr []), sent'))"

section \<open>The normalizer\<close>

text \<open>
  Modelled from the spec: \<^verbatim>\<open>data_processor.py\<close> (the class \<^verbatim>\<open>FacebookDataProcessor\<close>,
  with \<^verbatim>\<open>process_insights\<close> and \<^verbatim>\<open>convert_numeric_fields\<close>) is not among the sources.
  A Record is a mapping from field names to values, an AggregatedResult a sequence of
  Records. The fixed lookup table from action-bearing key to prefix holds the three
  entries the specification names; how an action type is sanitized is left open there
  and is a parameter here.
\<close>

type_synonym record_t = "(string \<times> json) list"

text \<open>
  Modelled from the spec: the lookup table of \<^verbatim>\<open>data_processor.py\<close>, from each
  action-bearing key to the prefix of its flat keys.
\<close>

definition action_table :: "(string \<times> string) list" where
  "action_table =
     [(''actions'', ''action_''), (''action_values'', ''action_value_''),
      (''conversions'', ''conversion_'')]"

text \<open>
  Modelled from the spec: an ActionEntry is well formed when it has an \<open>action_type\<close>,
  a text, and a \<open>value\<close>.
\<close>

fun well_formed :: "json \<Rightarrow> bool" where
  "well_formed (JObj e) =
     (case map_of e ''action_type'' of
        Some (JStr t) \<Rightarrow> map_of e ''value'' \<noteq> None
      | _ \<Rightarrow> False)"
| "well_formed v = False"

text \<open>
  Modelled from the spec: one entry sets the key made of the prefix and the sanitized
  action type to the entry's value; a malformed entry is skipped.
\<close>

fun flatten_entry :: "(string \<Rightarrow> string) \<Rightarrow> string \<Rightarrow> record_t \<Rightarrow> json \<Rightarrow> record_t" where
  "flatten_entry sanitize prefix out (JObj e) =
     (case map_of e ''action_type'' of
        Some (JStr t) \<Rightarrow>
          (case map_of e ''value'' of
             Some v \<Rightarrow> AList.update (prefix @ sanitize t) v out
           | None \<Rightarrow> out)
      | _ \<Rightarrow> out)"
| "flatten_entry sanitize prefix out v = out"

text \<open>
  Modelled from the spec: the entries of an action-bearing value, a sequence; a value of
  another shape has none.
\<close>

fun entries :: "json \<Rightarrow> json list" where
  "entries (JArr es) = es"
| "entries v = []"

text \<open>
  Modelled from the spec: what one action-bearing key of the table adds to the output
  Record, when the Record \<open>r\<close> has the key: the flat keys of its entries.
\<close>

definition flatten_key ::
  "(string \<Rightarrow> string) \<Rightarrow> record_t \<Rightarrow> record_t \<Rightarrow> string \<times> string \<Rightarrow> record_t" where
  "flatten_key sanitize r out row =
     (case row of
        (key, prefix) \<Rightarrow>
          (case map_of r key of
             None \<Rightarrow> out
           | Some v \<Rightarrow> foldl (flatten_entry sanitize prefix) out (entries v)))"

text \<open>
  Modelled from the spec: \<open>flatten_actions\<close> on one Record. The keys outside the table
  pass through, the action-bearing keys are removed, and each action-bearing key present
  in the Record contributes its entries, in the order of the table.
\<close>

definition flatten_record :: "(string \<Rightarrow> string) \<Rightarrow> record_t \<Rightarrow> record_t" where
  "flatten_record sanitize r =
     foldl (flatten_key sanitize r)
           (filter (\<lambda>(k, v). k \<notin> set (map fst action_table)) r)
           action_table"

text \<open>
  Modelled from the spec: \<open>flatten_actions\<close> of \<^verbatim>\<open>data_processor.py\<close>, a transform of
  each Record on its own.
\<close>

definition flatten_actions :: "(string \<Rightarrow> string) \<Rightarrow> record_t list \<Rightarrow> record_t list" where
  "flatten_actions sanitize rows = map (flatten_record sanitize) rows"




text \<open>A Record without the malformed entries of its action-bearing lists.\<close>

fun well_formed_only :: "json \<Rightarrow> json" where
  "well_formed_only (JArr es) = JArr (filter well_formed es)"
| "well_formed_only v = v"

definition drop_malformed :: "record_t \<Rightarrow> record_t" where
  "drop_malformed r =
     map (\<lambda>(k, v). (k, if k \<in> set (map fst action_table) then well_formed_only v else v)) r"

text \<open>
  Modelled from the spec: the numbers that \<open>convert_numeric_fields\<close> of
  \<^verbatim>\<open>data_processor.py\<close> recognises. A text lexically represents a number when it is an
  optional sign, digits, an optional fractional part (a point and digits) and an optional
  exponent (\<open>e\<close> or \<open>E\<close>, an optional sign, digits). First, a digit.
\<close>

definition is_digit :: "char \<Rightarrow> bool" where
  "is_digit c \<longleftrightarrow> c \<in> set ''0123456789''"

text \<open>Modelled from the spec: the number that a text of digits represents.\<close>

definition digits_value :: "string \<Rightarrow> nat" where
  "digits_value ds = foldl (\<lambda>n c. 10 * n + (of_char c - 48)) 0 ds"

text \<open>Modelled from the spec: the optional sign of a number, and the text after it.\<close>

definition strip_sign :: "string \<Rightarrow> bool \<times> string" where
  "strip_sign s =
     (case s of
        [] \<Rightarrow> (False, [])
      | c # cs \<Rightarrow> if c = CHR ''-'' then (True, cs) else if c = CHR ''+'' then (False, cs) else (False, s))"

text \<open>
  Modelled from the spec: the exponent part of a number: nothing, or \<open>e\<close>, a sign and
  digits up to the end of the text.
\<close>

definition exponent_of :: "string \<Rightarrow> int option option" where
  "exponent_of s =
     (case s of
        [] \<Rightarrow> Some None
      | c # cs \<Rightarrow>
          if c = CHR ''e'' \<or> c = CHR ''E''
          then (case strip_sign cs of
                  (neg, ds) \<Rightarrow>
                    if ds \<noteq> [] \<and> list_all is_digit ds
                    then Some (Some (if neg then - int (digits_value ds) else int (digits_value ds)))
                    else None)
          else None)"

text \<open>Modelled from the spec: a value times the power of ten of its exponent.\<close>

definition scale :: "rat \<Rightarrow> int \<Rightarrow> rat" where
  "scale x e = (if 0 \<le> e then x * 10 ^ nat e else x / 10 ^ nat (- e))"

text \<open>
  Modelled from the spec: the numeric value of a text, an integer when the text has no
  fractional part and no exponent, a float otherwise; \<open>None\<close> for any other text.
\<close>

definition parse_number :: "string \<Rightarrow> json option" where
  "parse_number s =
     (case strip_sign s of
        (neg, body) \<Rightarrow>
          (let whole = takeWhile is_digit body;
               rest = dropWhile is_digit body;
               sign = (if neg then - 1 else 1)
           in if whole = [] then None
              else if rest = [] then Some (JInt (sign * int (digits_value whole)))
              else if hd rest = CHR ''.''
              then (let frac = takeWhile is_digit (tl rest);
                        rest' = dropWhile is_digit (tl rest)
                    in if frac = [] then None
                       else (case exponent_of rest' of
                               None \<Rightarrow> None
                             | Some ex \<Rightarrow>
                                 Some (JFloat (scale
                                   (of_int sign * (of_nat (digits_value whole)
                                      + of_nat (digits_value frac) / 10 ^ length frac))
                                   (case ex of None \<Rightarrow> 0 | Some e \<Rightarrow> e)))))
              else (case exponent_of rest of
                      Some (Some e) \<Rightarrow>
                        Some (JFloat (scale (of_int sign * of_nat (digits_value whole)) e))
                    | _ \<Rightarrow> None)))"

text \<open>
  Modelled from the spec: \<open>convert_numeric_fields\<close> on one value. A text that represents
  a number is replaced by the number; every other value is left as it is.
\<close>

fun convert_value :: "json \<Rightarrow> json" where
  "convert_value (JStr s) = (case parse_number s of Some n \<Rightarrow> n | None \<Rightarrow> JStr s)"
| "convert_value v = v"

text \<open>Modelled from the spec: \<open>convert_numeric_fields\<close> on the values of one Record.\<close>

definition convert_record :: "record_t \<Rightarrow> record_t" where
  "convert_record r = map (\<lambda>(k, v). (k, convert_value v)) r"

text \<open>
  Modelled from the spec: \<open>convert_numeric_fields\<close> of \<^verbatim>\<open>data_processor.py\<close> on a
  sequence of Records.
\<close>

definition convert_numeric_fields :: "record_t list \<Rightarrow> record_t list" where
  "convert_numeric_fields rows = map convert_record rows"

section \<open>Describing an upstream that serves pages\<close>

text \<open>The request that reaches the upstream for an endpoint and parameters.\<close>

definition the_request :: "env \<Rightarrow> string \<Rightarrow> params option \<Rightarrow> request" where
  "the_request env endpoint params =
     (base_url env @ endpoint,
      AList.update ''access_token'' (JStr (access_token env))
        (case params of None \<Rightarrow> [] | Some p \<Rightarrow> p))"

definition is_2xx :: "nat \<Rightarrow> bool" where
  "is_2xx st \<longleftrightarrow> 200 \<le> st \<and> st < 300"

text \<open>The rows a page holds under \<open>data\<close>; a page without the key holds none.\<close>

definition page_rows :: "json \<Rightarrow> json list" where
  "page_rows page =
     (case page of
        JObj kvs \<Rightarrow> (case map_of kvs ''data'' of Some (JArr rows) \<Rightarrow> rows | _ \<Rightarrow> [])
      | _ \<Rightarrow> [])"

definition lacks_data :: "json \<Rightarrow> bool" where
  "lacks_data page = (case page of JObj kvs \<Rightarrow> map_of kvs ''data'' = None | _ \<Rightarrow> False)"

text \<open>The \<open>next\<close> entry of a page's pagination descriptor, if it has both.\<close>

definition page_next :: "json \<Rightarrow> json option" where
  "page_next page =
     (case page of
        JObj kvs \<Rightarrow> (case map_of kvs ''paging'' of Some (JObj p) \<Rightarrow> map_of p ''next'' | _ \<Rightarrow> None)
      | _ \<Rightarrow> None)"

text \<open>
  A page as the upstream interface describes it: a dictionary whose \<open>data\<close>, if any, is a
  list and whose \<open>paging\<close>, if any, is a dictionary.
\<close>

definition is_page :: "json \<Rightarrow> bool" where
  "is_page page =
     (case page of
        JObj kvs \<Rightarrow>
          (case map_of kvs ''data'' of None \<Rightarrow> True | Some (JArr rows) \<Rightarrow> True | _ \<Rightarrow> False)
          \<and> (case map_of kvs ''paging'' of None \<Rightarrow> True | Some (JObj p) \<Rightarrow> True | _ \<Rightarrow> False)
      | _ \<Rightarrow> False)"

text \<open>The parameters that the query string of a page's \<open>next\<close> URL parses to.\<close>

definition next_request_params :: "env \<Rightarrow> json \<Rightarrow> params option" where
  "next_request_params env page =
     (case page_next page of
        None \<Rightarrow> None
      | Some next_url \<Rightarrow>
          (case urlparse_query env next_url of
             Inl e \<Rightarrow> None
           | Inr query \<Rightarrow> Some (dict (parse_qsl env query))))"

text \<open>The upstream answers the last request of a history with a 2xx status and a page.\<close>

definition answers :: "env \<Rightarrow> request list \<Rightarrow> json \<Rightarrow> bool" where
  "answers env history page =
     (case upstream env history of
        Raises msg \<Rightarrow> False
      | Returns r \<Rightarrow> is_2xx (status_code r) \<and> json_body r = Some page \<and> is_page page)"

text \<open>
  After \<open>page\<close>, received with the history \<open>sent\<close>, the upstream serves \<open>pages\<close>: each
  is the answer to the request made of the parameters in the previous page's \<open>next\<close> URL.
\<close>

fun links :: "env \<Rightarrow> string \<Rightarrow> request list \<Rightarrow> json \<Rightarrow> json list \<Rightarrow> bool" where
  "links env endpoint sent page [] = True"
| "links env endpoint sent page (page' # pages) =
     (case next_request_params env page of
        None \<Rightarrow> False
      | Some ps \<Rightarrow>
          answers env (sent @ [the_request env endpoint (Some ps)]) page'
          \<and> links env endpoint (sent @ [the_request env endpoint (Some ps)]) page' pages)"

text \<open>The requests made of the parameters in the \<open>next\<close> URLs of \<open>pages\<close>, one per page.\<close>

definition requests_after :: "env \<Rightarrow> string \<Rightarrow> json list \<Rightarrow> request list" where
  "requests_after env endpoint pages =
     map (\<lambda>page. the_request env endpoint (next_request_params env page)) pages"

text \<open>
  A simulated upstream serving the pages \<open>pages\<close>, chained by their \<open>next\<close> URLs, to a
  fetch of \<open>endpoint\<close> with \<open>params\<close>; the last page has no \<open>next\<close>.
\<close>

definition serves :: "env \<Rightarrow> string \<Rightarrow> request list \<Rightarrow> params option \<Rightarrow> json list \<Rightarrow> bool" where
  "serves env endpoint sent params pages =
     (case pages of
        [] \<Rightarrow> False
      | page # rest \<Rightarrow>
          answers env (sent @ [the_request env endpoint params]) page
          \<and> links env endpoint (sent @ [the_request env endpoint params]) page rest
          \<and> page_next (last pages) = None)"

text \<open>
  The upstream serves \<open>pages\<close> in the same way, each with a \<open>next\<close> URL, and answers the
  request for the page after them with the response \<open>r\<close>.
\<close>

definition serves_then ::
  "env \<Rightarrow> string \<Rightarrow> request list \<Rightarrow> params option \<Rightarrow> json list \<Rightarrow> response \<Rightarrow> bool" where
  "serves_then env endpoint sent params pages r =
     ((case pages of
         [] \<Rightarrow> True
       | page # rest \<Rightarrow>
           answers env (sent @ [the_request env endpoint params]) page
           \<and> links env endpoint (sent @ [the_request env endpoint params]) page rest
           \<and> next_request_params env (last pages) \<noteq> None)
      \<and> upstream env (sent @ the_request env endpoint params # requests_after env endpoint pages)
          = Returns r)"

section \<open>An upstream to run the client against\<close>

text \<open>
  Stand-ins for the library's URL functions, enough for URLs without escapes: the query
  is the text between the first \<open>?\<close> and the next \<open>#\<close>, and its pairs are separated by
  \<open>&\<close>, a pair without \<open>=\<close> or with an empty value being dropped.
\<close>

fun example_urlparse_query :: "json \<Rightarrow> error + string" where
  "example_urlparse_query (JStr u) =
     Inr (takeWhile (\<lambda>c. c \<noteq> CHR ''#'') (drop 1 (dropWhile (\<lambda>c. c \<noteq> CHR ''?'') u)))"
| "example_urlparse_query v = Inl AttributeError"

fun split_on :: "char \<Rightarrow> string \<Rightarrow> string list" where
  "split_on sep [] = [[]]"
| "split_on sep (c # cs) =
     (if c = sep then [] # split_on sep cs
      else (case split_on sep cs of [] \<Rightarrow> [[c]] | w # ws \<Rightarrow> (c # w) # ws))"

definition example_parse_qsl :: "string \<Rightarrow> (string \<times> string) list" where
  "example_parse_qsl query =
     concat (map (\<lambda>pair. let name = takeWhile (\<lambda>c. c \<noteq> CHR ''='') pair;
                              val = drop 1 (dropWhile (\<lambda>c. c \<noteq> CHR ''='') pair)
                          in if val = [] then [] else [(name, val)])
                 (split_on CHR ''&'' query))"

definition ok_response :: "json \<Rightarrow> response" where
  "ok_response page =
     \<lparr>status_code = 200, reason = ''OK'', resp_url = ''https://graph.example/v24.0/me/adaccounts'',
      json_body = Some page\<rparr>"

definition example_page1 :: json where
  "example_page1 =
     JObj [(''data'', JArr [JObj [(''id'', JStr ''act_1'')], JObj [(''id'', JStr ''act_2'')]]),
           (''paging'', JObj [(''next'', JStr ''https://graph.example/v24.0/me/adaccounts?limit=2&after=c1'')])]"

definition example_page2 :: json where
  "example_page2 =
     JObj [(''paging'', JObj [(''next'', JStr ''https://graph.example/v24.0/me/adaccounts?limit=2&after=c2'')])]"

definition example_page3 :: json where
  "example_page3 =
     JObj [(''data'', JArr [JObj [(''id'', JStr ''act_3'')]]), (''paging'', JObj [(''cursors'', JNull)])]"

text \<open>
  The upstream looks at the \<open>after\<close> cursor of the request: without one it serves the
  first page, with \<open>c1\<close> the response \<open>second\<close>, with \<open>c2\<close> the third page.
\<close>

definition example_upstream :: "response \<Rightarrow> request list \<Rightarrow> http_outcome" where
  "example_upstream second history =
     (case history of
        [] \<Rightarrow> Raises ''no request''
      | _ \<Rightarrow>
          (case map_of (snd (last history)) ''after'' of
             None \<Rightarrow> Returns (ok_response example_page1)
           | Some cursor \<Rightarrow>
               if cursor = JStr ''c1'' then Returns second
               else if cursor = JStr ''c2'' then Returns (ok_response example_page3)
               else Raises ''timed out''))"

definition example_env :: "response \<Rightarrow> env" where
  "example_env second =
     \<lparr>base_url = ''https://graph.example/v24.0'', access_token = ''T'',
      upstream = example_upstream second,
      urlparse_query = example_urlparse_query, parse_qsl = example_parse_qsl,
      py_repr = (\<lambda>v. ''<repr>''), json_dumps = (\<lambda>v. ''<json>'')\<rparr>"

text \<open>A second page with rows, and three responses that are not a success.\<close>

definition example_page2_rows :: json where
  "example_page2_rows =
     JObj [(''data'', JArr [JObj [(''id'', JStr ''act_x'')]]),
           (''paging'', JObj [(''next'', JStr ''https://graph.example/v24.0/me/adaccounts?limit=2&after=c2'')])]"

definition example_error_body :: json where
  "example_error_body =
     JObj [(''error'', JObj [(''message'', JStr ''Invalid OAuth access token.''),
                            (''type'', JStr ''OAuthException''), (''code'', JInt 190),
                            (''error_subcode'', JInt 460)])]"

definition bad_request :: response where
  "bad_request =
     \<lparr>status_code = 400, reason = ''Bad Request'', resp_url = ''https://graph.example/v24.0/me/adaccounts'',
      json_body = Some example_error_body\<rparr>"

definition unavailable :: response where
  "unavailable =
     \<lparr>status_code = 503, reason = ''Service Unavailable'',
      resp_url = ''https://graph.example/v24.0/me/adaccounts'', json_body = None\<rparr>"

definition multiple_choices :: "json \<Rightarrow> response" where
  "multiple_choices body =
     \<lparr>status_code = 300, reason = ''Multiple Choices'',
      resp_url = ''https://graph.example/v24.0/me/adaccounts'', json_body = Some body\<rparr>"

definition not_modified :: response where
  "not_modified =
     \<lparr>status_code = 304, reason = ''Not Modified'',
      resp_url = ''https://graph.example/v24.0/me/adaccounts'', json_body = None\<rparr>"

text \<open>An upstream for the insights tool: one page with one row, whatever the request.\<close>

definition insights_page :: json where
  "insights_page =
     JObj [(''data'', JArr [JObj [(''spend'', JStr ''12.50''),
                                 (''actions'', JArr [JObj [(''action_type'', JStr ''purchase''),
                                                          (''value'', JStr ''5'')]])]])]"

definition insights_env :: env where
  "insights_env =
     (example_env (ok_response insights_page))
       \<lparr>upstream := (\<lambda>history. Returns (ok_response insights_page))\<rparr>"

definition example_args :: insights_args where
  "example_args =
     \<lparr>start_date = ''2025-01-01'', end_date = ''2025-01-31'', field_list = [''spend'', ''actions''],
      level = ''account'', breakdowns = None, time_increment = None, campaign_ids = Some [''17''],
      adset_ids = None, ad_ids = None\<rparr>"

text \<open>
  Modelled from the spec: \<^verbatim>\<open>process_insights\<close> of \<^verbatim>\<open>data_processor.py\<close> as the tool
  calls it, on the client's result: the rows that are dictionaries are flattened, with
  the action types left as they are.
\<close>

definition process_rows :: "json \<Rightarrow> error + json" where
  "process_rows response =
     Inr (JArr (map (\<lambda>row. case row of JObj r \<Rightarrow> JObj (flatten_record (\<lambda>t. t) r) | v \<Rightarrow> v)
                    (page_rows response)))"

text \<open>
  Modelled from the spec: \<^verbatim>\<open>convert_numeric_fields\<close> of \<^verbatim>\<open>data_processor.py\<close> as the
  tool calls it, on the flattened rows.
\<close>

definition convert_rows :: "json \<Rightarrow> error + json" where
  "convert_rows flattened =
     Inr (JArr (map (\<lambda>row. case row of JObj r \<Rightarrow> JObj (convert_record r) | v \<Rightarrow> v)
                    (entries flattened)))"

section \<open>The pager follows the pages it is served\<close>

lemma make_request_answers:
  assumes "answers env (sent @ [the_request env endpoint params]) page"
  shows "make_request env sent endpoint params = (Inr page, sent @ [the_request env endpoint params])"
  using assms
  by (auto simp: make_request_def the_request_def answers_def Let_def is_2xx_def raises_for_status_def
           split: http_outcome.splits)

lemma answers_is_page: "answers env history page \<Longrightarrow> is_page page"
  by (auto simp: answers_def split: http_outcome.splits)

lemma has_next_page: "is_page page \<Longrightarrow> has_next page = Inr (page_next page \<noteq> None)"
  by (auto simp: is_page_def has_next_def page_next_def split: json.splits option.splits)

lemma next_params_page:
  "is_page page \<Longrightarrow> next_request_params env page = Some ps \<Longrightarrow> next_params env page = Inr ps"
  by (auto simp: is_page_def next_params_def next_request_params_def page_next_def
           split: json.splits option.splits sum.splits)

lemma next_request_params_Some:
  "next_request_params env page = Some ps \<Longrightarrow> page_next page \<noteq> None"
  by (auto simp: next_request_params_def split: option.splits)

lemma page_data:
  assumes "is_page page"
  obtains v where "py_get page ''data'' (JArr []) = Inr v"
    and "\<And>all_data. py_extend all_data v = Inr (all_data @ page_rows page)"
  using assms
  by (auto simp: is_page_def page_rows_def split: json.splits option.splits)

lemma follow_pages_last:
  assumes "is_page page" "page_next page = None"
  shows "follow_pages env endpoint sent all_data page
           = Some (Inr (JObj [(''data'', JArr all_data)]), sent)"
  using assms by (subst follow_pages.simps) (simp add: has_next_page)

lemma follow_pages_step:
  assumes "is_page page" "next_request_params env page = Some ps"
    and "answers env (sent @ [the_request env endpoint (Some ps)]) page'"
  shows "follow_pages env endpoint sent all_data page
           = follow_pages env endpoint (sent @ [the_request env endpoint (Some ps)])
               (all_data @ page_rows page') page'"
proof -
  from assms(3) have page': "is_page page'" by (rule answers_is_page)
  from page' obtain v where v: "py_get page' ''data'' (JArr []) = Inr v"
    "py_extend all_data v = Inr (all_data @ page_rows page')"
    by (rule page_data) blast
  show ?thesis
    by (subst follow_pages.simps)
       (simp add: has_next_page [OF assms(1)] next_request_params_Some [OF assms(2)]
          next_params_page [OF assms(1,2)] make_request_answers [OF assms(3)] v)
qed

lemma follow_pages_links:
  assumes "is_page page" "links env endpoint sent page pages"
  shows "follow_pages env endpoint sent all_data page
           = follow_pages env endpoint (sent @ requests_after env endpoint (butlast (page # pages)))
               (all_data @ concat (map page_rows pages)) (last (page # pages))"
  using assms
proof (induction pages arbitrary: sent all_data page)
  case Nil
  then show ?case by (simp add: requests_after_def)
next
  case (Cons page' pages)
  from Cons.prems(2) obtain ps where ps: "next_request_params env page = Some ps"
    and ans: "answers env (sent @ [the_request env endpoint (Some ps)]) page'"
    and rest: "links env endpoint (sent @ [the_request env endpoint (Some ps)]) page' pages"
    by (auto split: option.splits)
  have "follow_pages env endpoint sent all_data page
          = follow_pages env endpoint (sent @ [the_request env endpoint (Some ps)])
              (all_data @ page_rows page') page'"
    using Cons.prems(1) ps ans by (rule follow_pages_step)
  also have "\<dots> = follow_pages env endpoint
                    ((sent @ [the_request env endpoint (Some ps)])
                       @ requests_after env endpoint (butlast (page' # pages)))
                    ((all_data @ page_rows page') @ concat (map page_rows pages))
                    (last (page' # pages))"
    using answers_is_page [OF ans] rest by (rule Cons.IH)
  finally show ?case by (simp add: requests_after_def ps)
qed

lemma first_page:
  assumes "answers env (sent @ [the_request env endpoint params]) page"
  shows "make_paginated_request env endpoint sent params
           = follow_pages env endpoint (sent @ [the_request env endpoint params]) (page_rows page) page"
proof -
  from assms have "is_page page" by (rule answers_is_page)
  then obtain v where v: "py_get page ''data'' (JArr []) = Inr v"
    "py_extend [] v = Inr ([] @ page_rows page)"
    by (rule page_data) blast
  show ?thesis
    by (simp add: make_paginated_request_def make_request_answers [OF assms] v)
qed

lemma links_last_page:
  "is_page page \<Longrightarrow> links env endpoint sent page pages \<Longrightarrow> is_page (last (page # pages))"
proof (induction pages arbitrary: sent page)
  case Nil
  then show ?case by simp
next
  case (Cons page' pages)
  from Cons.prems(2) obtain ps where
    ans: "answers env (sent @ [the_request env endpoint (Some ps)]) page'"
    and rest: "links env endpoint (sent @ [the_request env endpoint (Some ps)]) page' pages"
    by (auto split: option.splits)
  from Cons.IH [OF answers_is_page [OF ans] rest] show ?case by simp
qed

lemma paginated_links:
  assumes ans: "answers env (sent @ [the_request env endpoint params]) page"
    and rest: "links env endpoint (sent @ [the_request env endpoint params]) page rest"
  shows "make_paginated_request env endpoint sent params
           = follow_pages env endpoint
               (sent @ the_request env endpoint params
                  # requests_after env endpoint (butlast (page # rest)))
               (concat (map page_rows (page # rest))) (last (page # rest))"
proof -
  have "make_paginated_request env endpoint sent params
          = follow_pages env endpoint (sent @ [the_request env endpoint params]) (page_rows page) page"
    using ans by (rule first_page)
  also have "\<dots> = follow_pages env endpoint
                    ((sent @ [the_request env endpoint params])
                       @ requests_after env endpoint (butlast (page # rest)))
                    (page_rows page @ concat (map page_rows rest)) (last (page # rest))"
    using answers_is_page [OF ans] rest by (rule follow_pages_links)
  finally show ?thesis by simp
qed

lemma paginated_serves:
  assumes "serves env endpoint sent params pages"
  shows "make_paginated_request env endpoint sent params
           = Some (Inr (JObj [(''data'', JArr (concat (map page_rows pages)))]),
                   sent @ the_request env endpoint params
                     # requests_after env endpoint (butlast pages))"
proof -
  from assms obtain page rest where pages: "pages = page # rest"
    and ans: "answers env (sent @ [the_request env endpoint params]) page"
    and rest: "links env endpoint (sent @ [the_request env endpoint params]) page rest"
    and fin: "page_next (last (page # rest)) = None"
    by (auto simp: serves_def split: list.splits)
  have last_page: "is_page (last (page # rest))"
    using answers_is_page [OF ans] rest by (rule links_last_page)
  show ?thesis
    unfolding pages paginated_links [OF ans rest]
    using last_page fin by (rule follow_pages_last)
qed

lemma make_request_http_error:
  assumes "upstream env (sent @ [the_request env endpoint params]) = Returns r"
    and "raises_for_status (status_code r)"
  shows "make_request env sent endpoint params
           = (Inl (RequestException (error_message env r)), sent @ [the_request env endpoint params])"
  using assms by (simp add: make_request_def the_request_def Let_def)

lemma follow_pages_http_error:
  assumes "is_page page" "next_request_params env page = Some ps"
    and "upstream env (sent @ [the_request env endpoint (Some ps)]) = Returns r"
    and "raises_for_status (status_code r)"
  shows "follow_pages env endpoint sent all_data page
           = Some (Inl (RequestException (error_message env r)),
                   sent @ [the_request env endpoint (Some ps)])"
  by (subst follow_pages.simps)
     (simp add: has_next_page [OF assms(1)] next_request_params_Some [OF assms(2)]
        next_params_page [OF assms(1,2)] make_request_http_error [OF assms(3,4)])

lemma paginated_serves_then:
  assumes "serves_then env endpoint sent params pages r"
    and "raises_for_status (status_code r)"
  shows "make_paginated_request env endpoint sent params
           = Some (Inl (RequestException (error_message env r)),
                   sent @ the_request env endpoint params # requests_after env endpoint pages)"
proof (cases pages)
  case Nil
  with assms(1) have "upstream env (sent @ [the_request env endpoint params]) = Returns r"
    by (simp add: serves_then_def requests_after_def)
  from make_request_http_error [OF this assms(2)] show ?thesis
    by (simp add: make_paginated_request_def Nil requests_after_def)
next
  case (Cons page rest)
  with assms(1) obtain ps where
    ans: "answers env (sent @ [the_request env endpoint params]) page"
    and rest: "links env endpoint (sent @ [the_request env endpoint params]) page rest"
    and ps: "next_request_params env (last (page # rest)) = Some ps"
    and r: "upstream env (sent @ the_request env endpoint params
                            # requests_after env endpoint (page # rest)) = Returns r"
    by (auto simp: serves_then_def)
  have last_page: "is_page (last (page # rest))"
    using answers_is_page [OF ans] rest by (rule links_last_page)
  have split: "requests_after env endpoint (page # rest)
                 = requests_after env endpoint (butlast (page # rest))
                     @ [the_request env endpoint (Some ps)]"
  proof -
    have "page # rest = butlast (page # rest) @ [last (page # rest)]"
      by (rule append_butlast_last_id [symmetric]) simp
    then have "requests_after env endpoint (page # rest)
                 = requests_after env endpoint (butlast (page # rest) @ [last (page # rest)])"
      by simp
    then show ?thesis by (simp only: requests_after_def map_append list.map ps)
  qed
  have r': "upstream env ((sent @ the_request env endpoint params
                             # requests_after env endpoint (butlast (page # rest)))
                            @ [the_request env endpoint (Some ps)]) = Returns r"
    using r by (simp only: split append_assoc append_Cons)
  show ?thesis
    unfolding Cons paginated_links [OF ans rest]
    using follow_pages_http_error [OF last_page ps r' assms(2)]
    by (simp only: split append_assoc append_Cons)
qed

lemma make_request_sent:
  "make_request env sent endpoint params = (res, sent') \<Longrightarrow>
     sent' = sent @ [the_request env endpoint params]"
  by (auto simp: make_request_def the_request_def Let_def
           split: http_outcome.splits if_splits option.splits)

lemma make_request_snd:
  "snd (make_request env sent endpoint params) = sent @ [the_request env endpoint params]"
  by (cases "make_request env sent endpoint params") (simp add: make_request_sent)

lemma pair_eq_fst_snd: "(a, b) = p \<Longrightarrow> fst p = a \<and> snd p = b"
  by auto

lemma follow_pages_grows:
  assumes "follow_pages env endpoint sent all_data response = Some y"
  shows "\<exists>rest. snd y = sent @ rest"
proof (rule follow_pages.raw_induct
    [where P = "\<lambda>env endpoint sent all_data response y. \<exists>rest. snd y = sent @ rest", OF _ assms])
  fix loop :: "env \<Rightarrow> string \<Rightarrow> request list \<Rightarrow> json list \<Rightarrow> json
                \<Rightarrow> ((error + json) \<times> request list) option"
    and env endpoint sent all_data response y
  assume IH: "\<And>env endpoint sent all_data response y.
      loop env endpoint sent all_data response = Some y \<Longrightarrow> \<exists>rest. snd y = sent @ rest"
  assume body: "(case has_next response of
        Inl e \<Rightarrow> Some (Inl e, sent)
      | Inr again \<Rightarrow>
          if \<not> again then Some (Inr (JObj [(''data'', JArr all_data)]), sent)
          else (case next_params env response of
                  Inl e \<Rightarrow> Some (Inl e, sent)
                | Inr ps \<Rightarrow>
                    (case make_request env sent endpoint (Some ps) of
                       (Inl e, sent') \<Rightarrow> Some (Inl e, sent')
                     | (Inr response', sent') \<Rightarrow>
                         (case py_get response' ''data'' (JArr []) of
                            Inl e \<Rightarrow> Some (Inl e, sent')
                          | Inr page \<Rightarrow>
                              (case py_extend all_data page of
                                 Inl e \<Rightarrow> Some (Inl e, sent')
                               | Inr all_data' \<Rightarrow>
                                   loop env endpoint sent' all_data' response'))))) = Some y"
  show "\<exists>rest. snd y = sent @ rest"
    using body
    by (auto simp: make_request_snd split: sum.splits if_splits prod.splits
          dest!: make_request_sent IH)
qed

lemma follow_pages_shape:
  assumes "follow_pages env endpoint sent all_data response = Some y"
  shows "case fst y of Inl e \<Rightarrow> True | Inr v \<Rightarrow> (\<exists>rows. v = JObj [(''data'', JArr rows)])"
proof (rule follow_pages.raw_induct
    [where P = "\<lambda>env endpoint sent all_data response y.
                  case fst y of Inl e \<Rightarrow> True | Inr v \<Rightarrow> (\<exists>rows. v = JObj [(''data'', JArr rows)])",
     OF _ assms])
  fix loop :: "env \<Rightarrow> string \<Rightarrow> request list \<Rightarrow> json list \<Rightarrow> json
                \<Rightarrow> ((error + json) \<times> request list) option"
    and env endpoint sent all_data response y
  assume IH: "\<And>env endpoint sent all_data response y.
      loop env endpoint sent all_data response = Some y \<Longrightarrow>
        (case fst y of Inl e \<Rightarrow> True | Inr v \<Rightarrow> (\<exists>rows. v = JObj [(''data'', JArr rows)]))"
  assume body: "(case has_next response of
        Inl e \<Rightarrow> Some (Inl e, sent)
      | Inr again \<Rightarrow>
          if \<not> again then Some (Inr (JObj [(''data'', JArr all_data)]), sent)
          else (case next_params env response of
                  Inl e \<Rightarrow> Some (Inl e, sent)
                | Inr ps \<Rightarrow>
                    (case make_request env sent endpoint (Some ps) of
                       (Inl e, sent') \<Rightarrow> Some (Inl e, sent')
                     | (Inr response', sent') \<Rightarrow>
                         (case py_get response' ''data'' (JArr []) of
                            Inl e \<Rightarrow> Some (Inl e, sent')
                          | Inr page \<Rightarrow>
                              (case py_extend all_data page of
                                 Inl e \<Rightarrow> Some (Inl e, sent')
                               | Inr all_data' \<Rightarrow>
                                   loop env endpoint sent' all_data' response'))))) = Some y"
  show "case fst y of Inl e \<Rightarrow> True | Inr v \<Rightarrow> (\<exists>rows. v = JObj [(''data'', JArr rows)])"
    using body
    by (auto split: sum.splits if_splits prod.splits dest: IH dest!: pair_eq_fst_snd)
qed

section \<open>Pagination completeness\<close>

text \<open>
  Claim C1. When the upstream serves N pages chained by their \<open>next\<close> URLs, the paginated
  fetch returns, under \<open>data\<close>, the rows of all pages in page order with the order inside
  each page kept, so that their number is the sum of the page sizes, and it sends exactly
  N requests: the initial one and one for each page but the last.
\<close>

theorem pagination_complete:
  assumes "serves env endpoint sent params pages"
  shows "make_paginated_request env endpoint sent params
           = Some (Inr (JObj [(''data'', JArr (concat (map page_rows pages)))]),
                   sent @ the_request env endpoint params
                     # requests_after env endpoint (butlast pages))
         \<and> length (concat (map page_rows pages)) = (\<Sum>page\<leftarrow>pages. length (page_rows page))
         \<and> length (the_request env endpoint params # requests_after env endpoint (butlast pages))
             = length pages"
proof -
  from assms have "pages \<noteq> []"
    by (auto simp: serves_def)
  then have "length (the_request env endpoint params # requests_after env endpoint (butlast pages))
               = length pages"
    by (simp add: requests_after_def)
  moreover have "length (concat (map page_rows pages)) = (\<Sum>page\<leftarrow>pages. length (page_rows page))"
    by (simp add: length_concat comp_def)
  ultimately show ?thesis
    using paginated_serves [OF assms] by simp
qed

theorem pagination_complete_witness:
  "serves (example_env (ok_response example_page2_rows)) ''/me/adaccounts'' []
     (Some [(''fields'', JStr ''id'')]) [example_page1, example_page2_rows, example_page3]
   \<and> make_paginated_request (example_env (ok_response example_page2_rows)) ''/me/adaccounts'' []
       (Some [(''fields'', JStr ''id'')])
     = Some (Inr (JObj [(''data'', JArr [JObj [(''id'', JStr ''act_1'')], JObj [(''id'', JStr ''act_2'')],
                                        JObj [(''id'', JStr ''act_x'')], JObj [(''id'', JStr ''act_3'')]])]),
             [(''https://graph.example/v24.0/me/adaccounts'',
               [(''fields'', JStr ''id''), (''access_token'', JStr ''T'')]),
              (''https://graph.example/v24.0/me/adaccounts'',
               [(''limit'', JStr ''2''), (''after'', JStr ''c1''), (''access_token'', JStr ''T'')]),
              (''https://graph.example/v24.0/me/adaccounts'',
               [(''limit'', JStr ''2''), (''after'', JStr ''c2''), (''access_token'', JStr ''T'')])])"
proof -
  have h: "serves (example_env (ok_response example_page2_rows)) ''/me/adaccounts'' []
     (Some [(''fields'', JStr ''id'')]) [example_page1, example_page2_rows, example_page3]"
    by code_simp
  have rows: "concat (map page_rows [example_page1, example_page2_rows, example_page3])
      = [JObj [(''id'', JStr ''act_1'')], JObj [(''id'', JStr ''act_2'')],
         JObj [(''id'', JStr ''act_x'')], JObj [(''id'', JStr ''act_3'')]]"
    by code_simp
  have reqs: "the_request (example_env (ok_response example_page2_rows)) ''/me/adaccounts'' (Some [(''fields'', JStr ''id'')])
     # requests_after (example_env (ok_response example_page2_rows)) ''/me/adaccounts''
         (butlast [example_page1, example_page2_rows, example_page3])
     = [(''https://graph.example/v24.0/me/adaccounts'',
               [(''fields'', JStr ''id''), (''access_token'', JStr ''T'')]),
              (''https://graph.example/v24.0/me/adaccounts'',
               [(''limit'', JStr ''2''), (''after'', JStr ''c1''), (''access_token'', JStr ''T'')]),
              (''https://graph.example/v24.0/me/adaccounts'',
               [(''limit'', JStr ''2''), (''after'', JStr ''c2''), (''access_token'', JStr ''T'')])]"
    by code_simp
  from pagination_complete [OF h] h show ?thesis
    by (simp only: rows reqs append_Nil simp_thms)
qed

section \<open>All or nothing\<close>

text \<open>
  Claim C2, amended. When the upstream serves some pages and then answers the request for
  the next page with a 4xx or 5xx status, the paginated fetch raises a
  \<^verbatim>\<open>RequestException\<close> with the message built from that response: the rows of the
  pages already received are not returned.
\<close>

theorem failed_page_fails_fetch:
  assumes "serves_then env endpoint sent params pages r"
    and "400 \<le> status_code r" and "status_code r < 600"
  shows "make_paginated_request env endpoint sent params
           = Some (Inl (RequestException (error_message env r)),
                   sent @ the_request env endpoint params # requests_after env endpoint pages)"
  using assms(1) by (rule paginated_serves_then) (simp add: raises_for_status_def assms(2,3))

theorem failed_page_fails_fetch_witness:
  "serves_then (example_env bad_request) ''/me/adaccounts'' [] None [example_page1] bad_request
   \<and> 400 \<le> status_code bad_request \<and> status_code bad_request < 600
   \<and> make_paginated_request (example_env bad_request) ''/me/adaccounts'' [] None
     = Some (Inl (RequestException
                   ''Facebook API Error 190: Invalid OAuth access token. (Subcode: 460)''),
             [(''https://graph.example/v24.0/me/adaccounts'', [(''access_token'', JStr ''T'')]),
              (''https://graph.example/v24.0/me/adaccounts'',
               [(''limit'', JStr ''2''), (''after'', JStr ''c1''), (''access_token'', JStr ''T'')])])"
proof -
  have h: "serves_then (example_env bad_request) ''/me/adaccounts'' [] None [example_page1] bad_request"
    by code_simp
  have lo: "400 \<le> status_code bad_request" and hi: "status_code bad_request < 600"
    by (simp_all add: bad_request_def)
  have msg: "error_message (example_env bad_request) bad_request
      = ''Facebook API Error 190: Invalid OAuth access token. (Subcode: 460)''"
    by code_simp
  have reqs: "the_request (example_env bad_request) ''/me/adaccounts'' None
      # requests_after (example_env bad_request) ''/me/adaccounts'' [example_page1]
      = [(''https://graph.example/v24.0/me/adaccounts'', [(''access_token'', JStr ''T'')]),
         (''https://graph.example/v24.0/me/adaccounts'',
          [(''limit'', JStr ''2''), (''after'', JStr ''c1''), (''access_token'', JStr ''T'')])]"
    by code_simp
  from failed_page_fails_fetch [OF h lo hi] h lo hi show ?thesis
    by (simp only: msg reqs append_Nil simp_thms)
qed

text \<open>
  As the claim is worded, for any status outside 2xx, it fails: a 300 answer with a JSON
  body to the request for page 2 of 3 is read as a page, and the fetch returns the rows
  of all three answers.
\<close>

theorem redirect_page_counterexample:
  "serves_then (example_env (multiple_choices example_page2_rows)) ''/me/adaccounts'' [] None
     [example_page1] (multiple_choices example_page2_rows)
   \<and> \<not> (200 \<le> status_code (multiple_choices example_page2_rows)
        \<and> status_code (multiple_choices example_page2_rows) < 300)
   \<and> make_paginated_request (example_env (multiple_choices example_page2_rows)) ''/me/adaccounts'' [] None
     = Some (Inr (JObj [(''data'', JArr [JObj [(''id'', JStr ''act_1'')], JObj [(''id'', JStr ''act_2'')],
                                        JObj [(''id'', JStr ''act_x'')], JObj [(''id'', JStr ''act_3'')]])]),
             [(''https://graph.example/v24.0/me/adaccounts'', [(''access_token'', JStr ''T'')]),
              (''https://graph.example/v24.0/me/adaccounts'',
               [(''limit'', JStr ''2''), (''after'', JStr ''c1''), (''access_token'', JStr ''T'')]),
              (''https://graph.example/v24.0/me/adaccounts'',
               [(''limit'', JStr ''2''), (''after'', JStr ''c2''), (''access_token'', JStr ''T'')])])"
  by code_simp

section \<open>The next request\<close>

lemma follow_pages_first_request:
  assumes paging: "map_of kvs ''paging'' = Some (JObj p)"
    and nxt: "map_of p ''next'' = Some next_url"
    and query: "urlparse_query env next_url = Inr query"
    and returns: "follow_pages env endpoint sent all_data (JObj kvs) = Some (res, sent')"
  shows "\<exists>rest. sent' = sent @ the_request env endpoint (Some (dict (parse_qsl env query))) # rest"
proof -
  let ?ps = "dict (parse_qsl env query)"
  have more: "has_next (JObj kvs) = Inr True"
    using paging nxt by (simp add: has_next_def)
  have ps: "next_params env (JObj kvs) = Inr ?ps"
    using paging nxt query by (simp add: next_params_def)
  obtain r1 s1 where mr: "make_request env sent endpoint (Some ?ps) = (r1, s1)"
    by (cases "make_request env sent endpoint (Some ?ps)")
  then have s1: "s1 = sent @ [the_request env endpoint (Some ?ps)]"
    by (rule make_request_sent)
  from returns have body:
    "(case r1 of
        Inl e \<Rightarrow> Some (Inl e, s1)
      | Inr response' \<Rightarrow>
          (case py_get response' ''data'' (JArr []) of
             Inl e \<Rightarrow> Some (Inl e, s1)
           | Inr page \<Rightarrow>
               (case py_extend all_data page of
                  Inl e \<Rightarrow> Some (Inl e, s1)
                | Inr all_data' \<Rightarrow> follow_pages env endpoint s1 all_data' response')))
      = Some (res, sent')"
    by (subst (asm) follow_pages.simps) (simp add: more ps mr)
  then have "\<exists>rest. sent' = s1 @ rest"
    by (auto split: sum.splits dest: follow_pages_grows)
  then show ?thesis
    by (auto simp: s1)
qed

lemma follow_pages_stops:
  assumes "map_of kvs ''paging'' = None
           \<or> (\<exists>p. map_of kvs ''paging'' = Some (JObj p) \<and> map_of p ''next'' = None)"
  shows "follow_pages env endpoint sent all_data (JObj kvs)
           = Some (Inr (JObj [(''data'', JArr all_data)]), sent)"
proof -
  from assms have "has_next (JObj kvs) = Inr False"
    by (auto simp: has_next_def)
  then show ?thesis
    by (subst follow_pages.simps) simp
qed

text \<open>
  Claim C3. In a fetch of chained pages, every request after the first goes to the same
  URL, the base URL followed by the endpoint, and its parameters are those parsed from
  the query string of the previous page's \<open>next\<close> URL, with the access token that
  \<^verbatim>\<open>_make_request\<close> adds to every request; the parameters of the earlier requests do
  not occur in it. For one response with a \<open>next\<close> URL the loop goes on, the parameters
  it passes to \<^verbatim>\<open>_make_request\<close> are those parsed from the URL, and whenever it returns
  that request is the first one it has added. A response without \<open>paging\<close>, or whose \<open>paging\<close> has no \<open>next\<close>, ends the
  loop with the requests sent so far.
\<close>

theorem next_request_from_next_url:
  "(serves env endpoint sent params pages \<longrightarrow>
      (\<exists>result. make_paginated_request env endpoint sent params
         = Some (result,
                 sent @ the_request env endpoint params
                   # map (\<lambda>page. (base_url env @ endpoint,
                                   AList.update ''access_token'' (JStr (access_token env))
                                     (the (next_request_params env page))))
                         (butlast pages))))
   \<and> (map_of kvs ''paging'' = Some (JObj p) \<and> map_of p ''next'' = Some next_url
        \<and> urlparse_query env next_url = Inr query \<longrightarrow>
      has_next (JObj kvs) = Inr True
      \<and> next_params env (JObj kvs) = Inr (dict (parse_qsl env query))
      \<and> (\<forall>res sent'. follow_pages env endpoint sent all_data (JObj kvs) = Some (res, sent') \<longrightarrow>
            (\<exists>rest. sent' = sent @ (base_url env @ endpoint,
                                     AList.update ''access_token'' (JStr (access_token env))
                                       (dict (parse_qsl env query))) # rest)))
   \<and> (map_of kvs' ''paging'' = None
        \<or> (\<exists>p. map_of kvs' ''paging'' = Some (JObj p) \<and> map_of p ''next'' = None) \<longrightarrow>
      follow_pages env endpoint sent all_data (JObj kvs')
        = Some (Inr (JObj [(''data'', JArr all_data)]), sent))"
proof (intro conjI impI)
  assume run: "serves env endpoint sent params pages"
  then obtain page rest where pages: "pages = page # rest"
    and ans: "answers env (sent @ [the_request env endpoint params]) page"
    and rest: "links env endpoint (sent @ [the_request env endpoint params]) page rest"
    by (auto simp: serves_def split: list.splits)
  have "\<And>s pg. links env endpoint s pg rest \<Longrightarrow>
          requests_after env endpoint (butlast (pg # rest))
            = map (\<lambda>page. (base_url env @ endpoint,
                            AList.update ''access_token'' (JStr (access_token env))
                              (the (next_request_params env page))))
                  (butlast (pg # rest))"
  proof (induction rest)
    case Nil
    then show ?case by (simp add: requests_after_def)
  next
    case (Cons page' rest)
    from Cons.prems obtain ps where ps: "next_request_params env pg = Some ps"
      and rest: "links env endpoint (s @ [the_request env endpoint (Some ps)]) page' rest"
      by (auto split: option.splits)
    from Cons.IH [OF rest] show ?case
      by (simp add: requests_after_def ps the_request_def)
  qed
  from this [OF rest] paginated_serves [OF run]
  show "\<exists>result. make_paginated_request env endpoint sent params
         = Some (result,
                 sent @ the_request env endpoint params
                   # map (\<lambda>page. (base_url env @ endpoint,
                                   AList.update ''access_token'' (JStr (access_token env))
                                     (the (next_request_params env page))))
                         (butlast pages))"
    by (simp add: pages)
next
  assume given: "map_of kvs ''paging'' = Some (JObj p) \<and> map_of p ''next'' = Some next_url
        \<and> urlparse_query env next_url = Inr query"
  then show "has_next (JObj kvs) = Inr True"
    by (simp add: has_next_def)
  from given show "next_params env (JObj kvs) = Inr (dict (parse_qsl env query))"
    by (simp add: next_params_def)
  show "\<forall>res sent'. follow_pages env endpoint sent all_data (JObj kvs) = Some (res, sent') \<longrightarrow>
            (\<exists>rest. sent' = sent @ (base_url env @ endpoint,
                                     AList.update ''access_token'' (JStr (access_token env))
                                       (dict (parse_qsl env query))) # rest)"
  proof (intro allI impI)
    fix res sent'
    assume "follow_pages env endpoint sent all_data (JObj kvs) = Some (res, sent')"
    with given
    have "\<exists>rest. sent' = sent @ the_request env endpoint (Some (dict (parse_qsl env query))) # rest"
      by (blast intro: follow_pages_first_request)
    then show "\<exists>rest. sent' = sent @ (base_url env @ endpoint,
                               AList.update ''access_token'' (JStr (access_token env))
                                 (dict (parse_qsl env query))) # rest"
      by (simp add: the_request_def)
  qed
next
  assume "map_of kvs' ''paging'' = None
        \<or> (\<exists>p. map_of kvs' ''paging'' = Some (JObj p) \<and> map_of p ''next'' = None)"
  then show "follow_pages env endpoint sent all_data (JObj kvs')
        = Some (Inr (JObj [(''data'', JArr all_data)]), sent)"
    by (rule follow_pages_stops)
qed

theorem next_request_from_next_url_witness:
  "serves (example_env (ok_response example_page2)) ''/me/adaccounts'' [] None
     [example_page1, example_page2, example_page3]
   \<and> (\<exists>result. make_paginated_request (example_env (ok_response example_page2)) ''/me/adaccounts'' [] None
         = Some (result,
                 [(''https://graph.example/v24.0/me/adaccounts'', [(''access_token'', JStr ''T'')]),
                  (''https://graph.example/v24.0/me/adaccounts'',
                   [(''limit'', JStr ''2''), (''after'', JStr ''c1''), (''access_token'', JStr ''T'')]),
                  (''https://graph.example/v24.0/me/adaccounts'',
                   [(''limit'', JStr ''2''), (''after'', JStr ''c2''), (''access_token'', JStr ''T'')])]))
   \<and> next_params (example_env (ok_response example_page2))
         (JObj [(''paging'', JObj [(''next'', JStr ''https://graph.example/v24.0/me/adaccounts?limit=2&after=c2'')])])
       = Inr [(''limit'', JStr ''2''), (''after'', JStr ''c2'')]
   \<and> follow_pages (example_env (ok_response example_page2)) ''/me/adaccounts''
         [(''https://graph.example/v24.0/me/adaccounts'', [(''fields'', JStr ''id''), (''access_token'', JStr ''T'')])]
         []
         (JObj [(''paging'', JObj [(''next'', JStr ''https://graph.example/v24.0/me/adaccounts?limit=2&after=c2'')])])
       = Some (Inr (JObj [(''data'', JArr [JObj [(''id'', JStr ''act_3'')]])]),
               [(''https://graph.example/v24.0/me/adaccounts'', [(''fields'', JStr ''id''), (''access_token'', JStr ''T'')]),
                (''https://graph.example/v24.0/me/adaccounts'',
                 [(''limit'', JStr ''2''), (''after'', JStr ''c2''), (''access_token'', JStr ''T'')])])
   \<and> (\<exists>rest. [(''https://graph.example/v24.0/me/adaccounts'', [(''fields'', JStr ''id''), (''access_token'', JStr ''T'')]),
                (''https://graph.example/v24.0/me/adaccounts'',
                 [(''limit'', JStr ''2''), (''after'', JStr ''c2''), (''access_token'', JStr ''T'')])]
        = [(''https://graph.example/v24.0/me/adaccounts'', [(''fields'', JStr ''id''), (''access_token'', JStr ''T'')])]
            @ (''https://graph.example/v24.0/me/adaccounts'',
               [(''limit'', JStr ''2''), (''after'', JStr ''c2''), (''access_token'', JStr ''T'')]) # rest)
   \<and> follow_pages (example_env (ok_response example_page2)) ''/me/adaccounts'' [] []
         (JObj [(''data'', JArr []), (''paging'', JObj [(''cursors'', JNull)])])
       = Some (Inr (JObj [(''data'', JArr [])]), [])"
proof -
  let ?env = "example_env (ok_response example_page2)"
  let ?r0 = "(''https://graph.example/v24.0/me/adaccounts'', [(''fields'', JStr ''id''), (''access_token'', JStr ''T'')])"
  let ?r2 = "(''https://graph.example/v24.0/me/adaccounts'',
                 [(''limit'', JStr ''2''), (''after'', JStr ''c2''), (''access_token'', JStr ''T'')])"
  let ?next = "JStr ''https://graph.example/v24.0/me/adaccounts?limit=2&after=c2''"
  let ?kvs = "[(''paging'', JObj [(''next'', ?next)])]"
  let ?kvs' = "[(''data'', JArr []), (''paging'', JObj [(''cursors'', JNull)])]"
  have run: "serves ?env ''/me/adaccounts'' [] None [example_page1, example_page2, example_page3]"
    by code_simp
  have given: "map_of ?kvs ''paging'' = Some (JObj [(''next'', ?next)])
      \<and> map_of [(''next'', ?next)] ''next'' = Some ?next
      \<and> urlparse_query ?env ?next = Inr ''limit=2&after=c2''"
    by code_simp
  have returns: "follow_pages ?env ''/me/adaccounts'' [?r0] [] (JObj ?kvs)
      = Some (Inr (JObj [(''data'', JArr [JObj [(''id'', JStr ''act_3'')]])]), [?r0, ?r2])"
    by code_simp
  have stops: "map_of ?kvs' ''paging'' = None
      \<or> (\<exists>p. map_of ?kvs' ''paging'' = Some (JObj p) \<and> map_of p ''next'' = None)"
    by simp
  have reqs: "the_request ?env ''/me/adaccounts'' None
      # map (\<lambda>page. (base_url ?env @ ''/me/adaccounts'',
                      AList.update ''access_token'' (JStr (access_token ?env))
                        (the (next_request_params ?env page))))
            (butlast [example_page1, example_page2, example_page3])
      = [(''https://graph.example/v24.0/me/adaccounts'', [(''access_token'', JStr ''T'')]),
         (''https://graph.example/v24.0/me/adaccounts'',
          [(''limit'', JStr ''2''), (''after'', JStr ''c1''), (''access_token'', JStr ''T'')]),
         ?r2]"
    by code_simp
  have parsed: "dict (parse_qsl ?env ''limit=2&after=c2'') = [(''limit'', JStr ''2''), (''after'', JStr ''c2'')]"
    by code_simp
  have req: "(base_url ?env @ ''/me/adaccounts'',
              AList.update ''access_token'' (JStr (access_token ?env))
                [(''limit'', JStr ''2''), (''after'', JStr ''c2'')]) = ?r2"
    by code_simp
  note whole = next_request_from_next_url
    [where env = "?env" and endpoint = "''/me/adaccounts''" and sent = "[]" and params = None
       and pages = "[example_page1, example_page2, example_page3]" and kvs' = "?kvs'"
       and all_data = "[]"]
  note step = next_request_from_next_url
    [where env = "?env" and endpoint = "''/me/adaccounts''" and sent = "[?r0]" and kvs = "?kvs"
       and p = "[(''next'', ?next)]" and next_url = "?next"
       and query = "''limit=2&after=c2''" and all_data = "[]",
     THEN conjunct2, THEN conjunct1, rule_format, OF given, unfolded parsed req]
  from whole run stops have one: "\<exists>result. make_paginated_request ?env ''/me/adaccounts'' [] None
         = Some (result,
                 [(''https://graph.example/v24.0/me/adaccounts'', [(''access_token'', JStr ''T'')]),
                  (''https://graph.example/v24.0/me/adaccounts'',
                   [(''limit'', JStr ''2''), (''after'', JStr ''c1''), (''access_token'', JStr ''T'')]),
                  ?r2])"
    and four: "follow_pages ?env ''/me/adaccounts'' [] [] (JObj ?kvs')
       = Some (Inr (JObj [(''data'', JArr [])]), [])"
    by (simp_all only: reqs append_Nil)
  from step have two: "next_params ?env (JObj ?kvs) = Inr [(''limit'', JStr ''2''), (''after'', JStr ''c2'')]"
    by (elim conjE)
  from step have "\<forall>res sent'. follow_pages ?env ''/me/adaccounts'' [?r0] [] (JObj ?kvs) = Some (res, sent') \<longrightarrow>
      (\<exists>rest. sent' = [?r0] @ ?r2 # rest)"
    by (elim conjE)
  with returns have three: "\<exists>rest. [?r0, ?r2] = [?r0] @ ?r2 # rest"
    by blast
  from run one two returns three four show ?thesis
    by (intro conjI)
qed

section \<open>A page without rows\<close>

lemma lacks_data_rows: "lacks_data page \<Longrightarrow> page_rows page = []"
  by (auto simp: lacks_data_def page_rows_def split: json.splits)

text \<open>
  Claim C10. A response without a \<open>data\<close> key, whether it is the first page or a later
  one, adds no row: the fetch returns the rows of the pages before and after it, raises
  nothing, and still sends one request per page, so it goes on to the pages after it.
\<close>

theorem missing_data_is_empty_page:
  assumes "serves env endpoint sent params (before @ page # after)"
    and "lacks_data page"
  shows "make_paginated_request env endpoint sent params
           = Some (Inr (JObj [(''data'', JArr (concat (map page_rows before)
                                              @ concat (map page_rows after)))]),
                   sent @ the_request env endpoint params
                     # requests_after env endpoint (butlast (before @ page # after)))
         \<and> length (the_request env endpoint params
                     # requests_after env endpoint (butlast (before @ page # after)))
             = length before + 1 + length after"
  using paginated_serves [OF assms(1)] lacks_data_rows [OF assms(2)]
  by (simp add: requests_after_def)

theorem missing_data_is_empty_page_witness:
  "serves (example_env (ok_response example_page2)) ''/me/adaccounts'' [] None
     ([example_page1] @ example_page2 # [example_page3])
   \<and> lacks_data example_page2
   \<and> make_paginated_request (example_env (ok_response example_page2)) ''/me/adaccounts'' [] None
     = Some (Inr (JObj [(''data'', JArr [JObj [(''id'', JStr ''act_1'')], JObj [(''id'', JStr ''act_2'')],
                                        JObj [(''id'', JStr ''act_3'')]])]),
             [(''https://graph.example/v24.0/me/adaccounts'', [(''access_token'', JStr ''T'')]),
              (''https://graph.example/v24.0/me/adaccounts'',
               [(''limit'', JStr ''2''), (''after'', JStr ''c1''), (''access_token'', JStr ''T'')]),
              (''https://graph.example/v24.0/me/adaccounts'',
               [(''limit'', JStr ''2''), (''after'', JStr ''c2''), (''access_token'', JStr ''T'')])])"
proof -
  let ?env = "example_env (ok_response example_page2)"
  have run: "serves ?env ''/me/adaccounts'' [] None ([example_page1] @ example_page2 # [example_page3])"
    by code_simp
  have no_data: "lacks_data example_page2"
    by code_simp
  have rows: "concat (map page_rows [example_page1]) @ concat (map page_rows [example_page3])
      = [JObj [(''id'', JStr ''act_1'')], JObj [(''id'', JStr ''act_2'')], JObj [(''id'', JStr ''act_3'')]]"
    by code_simp
  have reqs: "the_request ?env ''/me/adaccounts'' None
      # requests_after ?env ''/me/adaccounts'' (butlast ([example_page1] @ example_page2 # [example_page3]))
      = [(''https://graph.example/v24.0/me/adaccounts'', [(''access_token'', JStr ''T'')]),
         (''https://graph.example/v24.0/me/adaccounts'',
          [(''limit'', JStr ''2''), (''after'', JStr ''c1''), (''access_token'', JStr ''T'')]),
         (''https://graph.example/v24.0/me/adaccounts'',
          [(''limit'', JStr ''2''), (''after'', JStr ''c2''), (''access_token'', JStr ''T'')])]"
    by code_simp
  from missing_data_is_empty_page [OF run no_data] run no_data show ?thesis
    by (simp only: rows reqs append_Nil simp_thms)
qed

section \<open>The message of an HTTP error\<close>

lemma error_message_detail:
  assumes "json_body r = Some (JObj body)" and "map_of body ''error'' = Some (JObj detail)"
  shows "error_message env r
           = ''Facebook API Error ''
               @ py_str env (case map_of detail ''code'' of Some code \<Rightarrow> code | None \<Rightarrow> JStr ''Unknown'')
               @ '': ''
               @ py_str env (case map_of detail ''message'' of
                               Some message \<Rightarrow> message
                             | None \<Rightarrow> JStr (http_error_msg r))
               @ (case map_of detail ''error_subcode'' of
                    Some subcode \<Rightarrow> '' (Subcode: '' @ py_str env subcode @ '')''
                  | None \<Rightarrow> [])"
  using assms by (simp add: error_message_def Let_def split: option.splits)

lemma error_message_no_json:
  assumes "json_body r = None"
  shows "error_message env r = ''Facebook API request failed: '' @ http_error_msg r"
  using assms by (simp add: error_message_def Let_def)

text \<open>
  Claim C4, amended. For every response with a 4xx or 5xx status, \<^verbatim>\<open>_make_request\<close>
  raises a \<^verbatim>\<open>RequestException\<close> and nothing else. When the body is JSON with a
  dictionary under \<open>error\<close>, its message is made of the upstream code (or \<open>Unknown\<close>), the
  upstream message (or the text of the HTTP error) and, when present, the subcode. When
  the body is not JSON, the message is the generic one with the text of the HTTP error.
\<close>

theorem http_error_message:
  assumes "upstream env (sent @ [the_request env endpoint params]) = Returns r"
    and "400 \<le> status_code r" and "status_code r < 600"
  shows "\<exists>msg. make_request env sent endpoint params
                 = (Inl (RequestException msg), sent @ [the_request env endpoint params])
           \<and> (\<forall>body detail.
                 json_body r = Some (JObj body) \<and> map_of body ''error'' = Some (JObj detail) \<longrightarrow>
                 msg = ''Facebook API Error ''
                         @ py_str env (case map_of detail ''code'' of
                                         Some code \<Rightarrow> code | None \<Rightarrow> JStr ''Unknown'')
                         @ '': ''
                         @ py_str env (case map_of detail ''message'' of
                                         Some message \<Rightarrow> message
                                       | None \<Rightarrow> JStr (http_error_msg r))
                         @ (case map_of detail ''error_subcode'' of
                              Some subcode \<Rightarrow> '' (Subcode: '' @ py_str env subcode @ '')''
                            | None \<Rightarrow> []))
           \<and> (json_body r = None \<longrightarrow>
                 msg = ''Facebook API request failed: '' @ http_error_msg r)"
proof -
  have "raises_for_status (status_code r)"
    using assms(2,3) by (simp add: raises_for_status_def)
  with assms(1) have "make_request env sent endpoint params
      = (Inl (RequestException (error_message env r)), sent @ [the_request env endpoint params])"
    by (rule make_request_http_error)
  then show ?thesis
    by (auto simp: error_message_detail error_message_no_json)
qed

theorem http_error_message_witness:
  "upstream (example_env bad_request)
       ([] @ [the_request (example_env bad_request) ''/me/adaccounts'' (Some [(''after'', JStr ''c1'')])])
     = Returns bad_request
   \<and> 400 \<le> status_code bad_request \<and> status_code bad_request < 600
   \<and> make_request (example_env bad_request) [] ''/me/adaccounts'' (Some [(''after'', JStr ''c1'')])
     = (Inl (RequestException ''Facebook API Error 190: Invalid OAuth access token. (Subcode: 460)''),
        [(''https://graph.example/v24.0/me/adaccounts'',
          [(''after'', JStr ''c1''), (''access_token'', JStr ''T'')])])
   \<and> upstream (example_env unavailable)
       ([] @ [the_request (example_env unavailable) ''/me/adaccounts'' (Some [(''after'', JStr ''c1'')])])
     = Returns unavailable
   \<and> 400 \<le> status_code unavailable \<and> status_code unavailable < 600
   \<and> make_request (example_env unavailable) [] ''/me/adaccounts'' (Some [(''after'', JStr ''c1'')])
     = (Inl (RequestException
              ''Facebook API request failed: 503 Server Error: Service Unavailable for url: https://graph.example/v24.0/me/adaccounts''),
        [(''https://graph.example/v24.0/me/adaccounts'',
          [(''after'', JStr ''c1''), (''access_token'', JStr ''T'')])])"
proof -
  let ?ps = "Some [(''after'', JStr ''c1'')]"
  let ?detail = "[(''message'', JStr ''Invalid OAuth access token.''),
                  (''type'', JStr ''OAuthException''), (''code'', JInt 190),
                  (''error_subcode'', JInt 460)]"
  have up1: "upstream (example_env bad_request)
       ([] @ [the_request (example_env bad_request) ''/me/adaccounts'' ?ps]) = Returns bad_request"
    by code_simp
  have lo1: "400 \<le> status_code bad_request" and hi1: "status_code bad_request < 600"
    by (simp_all add: bad_request_def)
  have body1: "json_body bad_request = Some (JObj [(''error'', JObj ?detail)])
      \<and> map_of [(''error'', JObj ?detail)] ''error'' = Some (JObj ?detail)"
    by (simp add: bad_request_def example_error_body_def)
  have text1: "''Facebook API Error ''
        @ py_str (example_env bad_request)
            (case map_of ?detail ''code'' of Some code \<Rightarrow> code | None \<Rightarrow> JStr ''Unknown'')
        @ '': ''
        @ py_str (example_env bad_request)
            (case map_of ?detail ''message'' of
               Some message \<Rightarrow> message | None \<Rightarrow> JStr (http_error_msg bad_request))
        @ (case map_of ?detail ''error_subcode'' of
             Some subcode \<Rightarrow> '' (Subcode: '' @ py_str (example_env bad_request) subcode @ '')''
           | None \<Rightarrow> [])
      = ''Facebook API Error 190: Invalid OAuth access token. (Subcode: 460)''"
    by code_simp
  have req1: "[] @ [the_request (example_env bad_request) ''/me/adaccounts'' ?ps]
      = [(''https://graph.example/v24.0/me/adaccounts'',
          [(''after'', JStr ''c1''), (''access_token'', JStr ''T'')])]"
    by code_simp
  have up2: "upstream (example_env unavailable)
       ([] @ [the_request (example_env unavailable) ''/me/adaccounts'' ?ps]) = Returns unavailable"
    by code_simp
  have lo2: "400 \<le> status_code unavailable" and hi2: "status_code unavailable < 600"
    by (simp_all add: unavailable_def)
  have body2: "json_body unavailable = None"
    by (simp add: unavailable_def)
  have text2: "''Facebook API request failed: '' @ http_error_msg unavailable
      = ''Facebook API request failed: 503 Server Error: Service Unavailable for url: https://graph.example/v24.0/me/adaccounts''"
    by code_simp
  have req2: "[] @ [the_request (example_env unavailable) ''/me/adaccounts'' ?ps]
      = [(''https://graph.example/v24.0/me/adaccounts'',
          [(''after'', JStr ''c1''), (''access_token'', JStr ''T'')])]"
    by code_simp
  from http_error_message [OF up1 lo1 hi1] obtain msg1 where
    mr1: "make_request (example_env bad_request) [] ''/me/adaccounts'' ?ps
            = (Inl (RequestException msg1),
               [] @ [the_request (example_env bad_request) ''/me/adaccounts'' ?ps])"
    and parsed: "\<forall>body detail.
        json_body bad_request = Some (JObj body) \<and> map_of body ''error'' = Some (JObj detail) \<longrightarrow>
        msg1 = ''Facebook API Error ''
                 @ py_str (example_env bad_request)
                     (case map_of detail ''code'' of Some code \<Rightarrow> code | None \<Rightarrow> JStr ''Unknown'')
                 @ '': ''
                 @ py_str (example_env bad_request)
                     (case map_of detail ''message'' of
                        Some message \<Rightarrow> message | None \<Rightarrow> JStr (http_error_msg bad_request))
                 @ (case map_of detail ''error_subcode'' of
                      Some subcode \<Rightarrow> '' (Subcode: '' @ py_str (example_env bad_request) subcode @ '')''
                    | None \<Rightarrow> [])"
    by (elim exE conjE)
  from parsed [rule_format, OF body1]
  have "msg1 = ''Facebook API Error 190: Invalid OAuth access token. (Subcode: 460)''"
    by (simp only: text1)
  with mr1 have one: "make_request (example_env bad_request) [] ''/me/adaccounts'' ?ps
     = (Inl (RequestException ''Facebook API Error 190: Invalid OAuth access token. (Subcode: 460)''),
        [(''https://graph.example/v24.0/me/adaccounts'',
          [(''after'', JStr ''c1''), (''access_token'', JStr ''T'')])])"
    by (simp only: req1)
  from http_error_message [OF up2 lo2 hi2] obtain msg2 where
    mr2: "make_request (example_env unavailable) [] ''/me/adaccounts'' ?ps
            = (Inl (RequestException msg2),
               [] @ [the_request (example_env unavailable) ''/me/adaccounts'' ?ps])"
    and unparsed: "json_body unavailable = None \<longrightarrow>
        msg2 = ''Facebook API request failed: '' @ http_error_msg unavailable"
    by (elim exE conjE)
  from unparsed [rule_format, OF body2]
  have "msg2 = ''Facebook API request failed: 503 Server Error: Service Unavailable for url: https://graph.example/v24.0/me/adaccounts''"
    by (simp only: text2)
  with mr2 have two: "make_request (example_env unavailable) [] ''/me/adaccounts'' ?ps
     = (Inl (RequestException
              ''Facebook API request failed: 503 Server Error: Service Unavailable for url: https://graph.example/v24.0/me/adaccounts''),
        [(''https://graph.example/v24.0/me/adaccounts'',
          [(''after'', JStr ''c1''), (''access_token'', JStr ''T'')])])"
    by (simp only: req2)
  from up1 lo1 hi1 one up2 lo2 hi2 two show ?thesis
    by (intro conjI)
qed

text \<open>
  As the claim is worded, for any status outside 2xx, it fails: for a 304 answer without
  a body the error raised is the JSON decoding error, with no such message, and a 300
  answer with an \<open>error\<close> dictionary raises nothing and is returned as the result.
\<close>

theorem other_status_counterexample:
  "\<not> (200 \<le> status_code not_modified \<and> status_code not_modified < 300)
   \<and> json_body not_modified = None
   \<and> make_request (example_env not_modified) [] ''/me/adaccounts'' (Some [(''after'', JStr ''c1'')])
     = (Inl JSONDecodeError,
        [(''https://graph.example/v24.0/me/adaccounts'',
          [(''after'', JStr ''c1''), (''access_token'', JStr ''T'')])])
   \<and> \<not> (200 \<le> status_code (multiple_choices example_error_body)
        \<and> status_code (multiple_choices example_error_body) < 300)
   \<and> make_request (example_env (multiple_choices example_error_body)) [] ''/me/adaccounts''
       (Some [(''after'', JStr ''c1'')])
     = (Inr example_error_body,
        [(''https://graph.example/v24.0/me/adaccounts'',
          [(''after'', JStr ''c1''), (''access_token'', JStr ''T'')])])"
  by code_simp

section \<open>The insights tool and its flag\<close>

lemma paginated_shape:
  assumes "make_paginated_request env endpoint sent params = Some (Inr v, sent')"
  shows "\<exists>rows. v = JObj [(''data'', JArr rows)]"
  using assms
  by (auto simp: make_paginated_request_def split: prod.splits sum.splits
           dest: follow_pages_shape)

text \<open>
  Claim C8. When the client returns its result, which always has the aggregated rows
  under \<open>data\<close>, the insights tool with \<open>flatten_actions\<close> set returns what
  \<open>convert_numeric_fields\<close> makes of what \<open>process_insights\<close> made of that result,
  flattening first and conversion second; with the flag unset it returns the aggregated
  rows themselves and calls neither.
\<close>

theorem insights_tool_flag:
  assumes "get_account_insights env sent account_id args 100 = Some (Inr response, sent')"
  shows "\<exists>rows. response = JObj [(''data'', JArr rows)]
           \<and> insights_tool process convert env sent account_id args True
               = Some (case process response of
                         Inl e \<Rightarrow> Inl e
                       | Inr flattened \<Rightarrow> convert flattened, sent')
           \<and> insights_tool process convert env sent account_id args False
               = Some (Inr (JArr rows), sent')"
proof -
  from assms obtain rows where "response = JObj [(''data'', JArr rows)]"
    unfolding get_account_insights_def Let_def by (blast dest: paginated_shape)
  with assms show ?thesis
    by (simp add: insights_tool_def split: sum.splits)
qed

theorem insights_tool_flag_witness:
  "get_account_insights insights_env [] ''123'' example_args 100
     = Some (Inr insights_page,
             [(''https://graph.example/v24.0/act_123/insights'',
               [(''fields'', JStr ''spend,actions''), (''level'', JStr ''account''),
                (''time_range'', JStr ''<json>''), (''limit'', JInt 100),
                (''filtering'', JStr ''<json>''), (''access_token'', JStr ''T'')])])
   \<and> insights_tool process_rows convert_rows insights_env [] ''123'' example_args True
     = Some (Inr (JArr [JObj [(''spend'', JFloat (25 / 2)), (''action_purchase'', JInt 5)]]),
             [(''https://graph.example/v24.0/act_123/insights'',
               [(''fields'', JStr ''spend,actions''), (''level'', JStr ''account''),
                (''time_range'', JStr ''<json>''), (''limit'', JInt 100),
                (''filtering'', JStr ''<json>''), (''access_token'', JStr ''T'')])])
   \<and> insights_tool process_rows convert_rows insights_env [] ''123'' example_args False
     = Some (Inr (JArr [JObj [(''spend'', JStr ''12.50''),
                             (''actions'', JArr [JObj [(''action_type'', JStr ''purchase''),
                                                      (''value'', JStr ''5'')]])]]),
             [(''https://graph.example/v24.0/act_123/insights'',
               [(''fields'', JStr ''spend,actions''), (''level'', JStr ''account''),
                (''time_range'', JStr ''<json>''), (''limit'', JInt 100),
                (''filtering'', JStr ''<json>''), (''access_token'', JStr ''T'')])])"
proof -
  let ?sent = "[(''https://graph.example/v24.0/act_123/insights'',
               [(''fields'', JStr ''spend,actions''), (''level'', JStr ''account''),
                (''time_range'', JStr ''<json>''), (''limit'', JInt 100),
                (''filtering'', JStr ''<json>''), (''access_token'', JStr ''T'')])]"
  let ?row = "JObj [(''spend'', JStr ''12.50''),
                    (''actions'', JArr [JObj [(''action_type'', JStr ''purchase''),
                                             (''value'', JStr ''5'')]])]"
  have fetched: "get_account_insights insights_env [] ''123'' example_args 100
      = Some (Inr insights_page, ?sent)"
    by code_simp
  have page: "insights_page = JObj [(''data'', JArr [?row])]"
    by (simp add: insights_page_def)
  have transformed: "(case process_rows insights_page of
                        Inl e \<Rightarrow> Inl e
                      | Inr flattened \<Rightarrow> convert_rows flattened)
      = Inr (JArr [JObj [(''spend'', JFloat (25 / 2)), (''action_purchase'', JInt 5)]])"
    by code_simp
  from insights_tool_flag [OF fetched, of process_rows convert_rows] obtain rows where
    shape: "insights_page = JObj [(''data'', JArr rows)]"
    and flat: "insights_tool process_rows convert_rows insights_env [] ''123'' example_args True
                 = Some (case process_rows insights_page of
                           Inl e \<Rightarrow> Inl e
                         | Inr flattened \<Rightarrow> convert_rows flattened, ?sent)"
    and raw: "insights_tool process_rows convert_rows insights_env [] ''123'' example_args False
                = Some (Inr (JArr rows), ?sent)"
    by (elim exE conjE)
  from shape [unfolded page] have "rows = [?row]"
    by simp
  with fetched flat raw show ?thesis
    by (simp only: transformed simp_thms)
qed

section \<open>The account id in the endpoint path\<close>

lemma if_neq_swap: "(if a \<noteq> b then x else y) = (if a = b then y else x)"
  by simp

lemma get_campaigns_path:
  "\<exists>ps. \<forall>account_id. get_campaigns env sent account_id st limit
      = make_paginated_request env
          (''/'' @ (if take 4 account_id = ''act_'' then account_id else ''act_'' @ account_id)
             @ ''/campaigns'') sent (Some ps)"
  unfolding get_campaigns_def Let_def if_neq_swap by (rule exI, rule allI, rule refl)

lemma get_ad_sets_path:
  "\<exists>ps. \<forall>account_id. get_ad_sets env sent account_id st limit
      = make_paginated_request env
          (''/'' @ (if take 4 account_id = ''act_'' then account_id else ''act_'' @ account_id)
             @ ''/adsets'') sent (Some ps)"
  unfolding get_ad_sets_def Let_def if_neq_swap by (rule exI, rule allI, rule refl)

lemma get_ads_path:
  "\<exists>ps. \<forall>account_id. get_ads env sent account_id st limit
      = make_paginated_request env
          (''/'' @ (if take 4 account_id = ''act_'' then account_id else ''act_'' @ account_id)
             @ ''/ads'') sent (Some ps)"
  unfolding get_ads_def Let_def if_neq_swap by (rule exI, rule allI, rule refl)

lemma get_account_insights_path:
  "\<exists>ps. \<forall>account_id. get_account_insights env sent account_id args limit
      = make_paginated_request env
          (''/'' @ (if take 4 account_id = ''act_'' then account_id else ''act_'' @ account_id)
             @ ''/insights'') sent (Some ps)"
  unfolding get_account_insights_def Let_def if_neq_swap by (rule exI, rule allI, rule refl)

text \<open>
  Claim C9. The three listing operations and the insights operation of the client fetch
  the path made of the account id and the name of the collection. An id that does not
  start with \<open>act_\<close> is used with \<open>act_\<close> put in front of it once, so that the call
  equals the call with the prefixed id; an id that starts with \<open>act_\<close> is used as it is.
\<close>

theorem account_id_prefix:
  "(take 4 account_id \<noteq> ''act_'' \<longrightarrow>
      (\<exists>ps. get_campaigns env sent account_id st limit
              = make_paginated_request env (''/'' @ (''act_'' @ account_id) @ ''/campaigns'') sent (Some ps))
      \<and> (\<exists>ps. get_ad_sets env sent account_id st limit
              = make_paginated_request env (''/'' @ (''act_'' @ account_id) @ ''/adsets'') sent (Some ps))
      \<and> (\<exists>ps. get_ads env sent account_id st limit
              = make_paginated_request env (''/'' @ (''act_'' @ account_id) @ ''/ads'') sent (Some ps))
      \<and> (\<exists>ps. get_account_insights env sent account_id args limit
              = make_paginated_request env (''/'' @ (''act_'' @ account_id) @ ''/insights'') sent (Some ps))
      \<and> get_campaigns env sent account_id st limit
          = get_campaigns env sent (''act_'' @ account_id) st limit
      \<and> get_ad_sets env sent account_id st limit
          = get_ad_sets env sent (''act_'' @ account_id) st limit
      \<and> get_ads env sent account_id st limit
          = get_ads env sent (''act_'' @ account_id) st limit
      \<and> get_account_insights env sent account_id args limit
          = get_account_insights env sent (''act_'' @ account_id) args limit)
   \<and> (take 4 account_id = ''act_'' \<longrightarrow>
      (\<exists>ps. get_campaigns env sent account_id st limit
              = make_paginated_request env (''/'' @ account_id @ ''/campaigns'') sent (Some ps))
      \<and> (\<exists>ps. get_ad_sets env sent account_id st limit
              = make_paginated_request env (''/'' @ account_id @ ''/adsets'') sent (Some ps))
      \<and> (\<exists>ps. get_ads env sent account_id st limit
              = make_paginated_request env (''/'' @ account_id @ ''/ads'') sent (Some ps))
      \<and> (\<exists>ps. get_account_insights env sent account_id args limit
              = make_paginated_request env (''/'' @ account_id @ ''/insights'') sent (Some ps)))"
proof -
  have twice: "take 4 (''act_'' @ account_id) = ''act_''"
    by simp
  from get_campaigns_path obtain cps where
    c: "\<And>a. get_campaigns env sent a st limit
          = make_paginated_request env
              (''/'' @ (if take 4 a = ''act_'' then a else ''act_'' @ a) @ ''/campaigns'') sent (Some cps)"
    by blast
  from get_ad_sets_path obtain sps where
    s: "\<And>a. get_ad_sets env sent a st limit
          = make_paginated_request env
              (''/'' @ (if take 4 a = ''act_'' then a else ''act_'' @ a) @ ''/adsets'') sent (Some sps)"
    by blast
  from get_ads_path obtain aps where
    a: "\<And>a. get_ads env sent a st limit
          = make_paginated_request env
              (''/'' @ (if take 4 a = ''act_'' then a else ''act_'' @ a) @ ''/ads'') sent (Some aps)"
    by blast
  from get_account_insights_path obtain ips where
    i: "\<And>a. get_account_insights env sent a args limit
          = make_paginated_request env
              (''/'' @ (if take 4 a = ''act_'' then a else ''act_'' @ a) @ ''/insights'') sent (Some ips)"
    by blast
  show ?thesis
  proof (intro conjI impI)
    assume no: "take 4 account_id \<noteq> ''act_''"
    from c [of account_id] no
    have "get_campaigns env sent account_id st limit
            = make_paginated_request env (''/'' @ (''act_'' @ account_id) @ ''/campaigns'') sent (Some cps)"
      by simp
    then show "\<exists>ps. get_campaigns env sent account_id st limit
              = make_paginated_request env (''/'' @ (''act_'' @ account_id) @ ''/campaigns'') sent (Some ps)"
      by (rule exI)
    from s [of account_id] no
    have "get_ad_sets env sent account_id st limit
            = make_paginated_request env (''/'' @ (''act_'' @ account_id) @ ''/adsets'') sent (Some sps)"
      by simp
    then show "\<exists>ps. get_ad_sets env sent account_id st limit
              = make_paginated_request env (''/'' @ (''act_'' @ account_id) @ ''/adsets'') sent (Some ps)"
      by (rule exI)
    from a [of account_id] no
    have "get_ads env sent account_id st limit
            = make_paginated_request env (''/'' @ (''act_'' @ account_id) @ ''/ads'') sent (Some aps)"
      by simp
    then show "\<exists>ps. get_ads env sent account_id st limit
              = make_paginated_request env (''/'' @ (''act_'' @ account_id) @ ''/ads'') sent (Some ps)"
      by (rule exI)
    from i [of account_id] no
    have "get_account_insights env sent account_id args limit
            = make_paginated_request env (''/'' @ (''act_'' @ account_id) @ ''/insights'') sent (Some ips)"
      by simp
    then show "\<exists>ps. get_account_insights env sent account_id args limit
              = make_paginated_request env (''/'' @ (''act_'' @ account_id) @ ''/insights'') sent (Some ps)"
      by (rule exI)
    from c [of account_id] c [of "''act_'' @ account_id"] no
    show "get_campaigns env sent account_id st limit
          = get_campaigns env sent (''act_'' @ account_id) st limit"
      by simp
    from s [of account_id] s [of "''act_'' @ account_id"] no
    show "get_ad_sets env sent account_id st limit
          = get_ad_sets env sent (''act_'' @ account_id) st limit"
      by simp
    from a [of account_id] a [of "''act_'' @ account_id"] no
    show "get_ads env sent account_id st limit
          = get_ads env sent (''act_'' @ account_id) st limit"
      by simp
    from i [of account_id] i [of "''act_'' @ account_id"] no
    show "get_account_insights env sent account_id args limit
          = get_account_insights env sent (''act_'' @ account_id) args limit"
      by simp
  next
    assume yes: "take 4 account_id = ''act_''"
    from c [of account_id] yes
    have "get_campaigns env sent account_id st limit
            = make_paginated_request env (''/'' @ account_id @ ''/campaigns'') sent (Some cps)"
      by simp
    then show "\<exists>ps. get_campaigns env sent account_id st limit
              = make_paginated_request env (''/'' @ account_id @ ''/campaigns'') sent (Some ps)"
      by (rule exI)
    from s [of account_id] yes
    have "get_ad_sets env sent account_id st limit
            = make_paginated_request env (''/'' @ account_id @ ''/adsets'') sent (Some sps)"
      by simp
    then show "\<exists>ps. get_ad_sets env sent account_id st limit
              = make_paginated_request env (''/'' @ account_id @ ''/adsets'') sent (Some ps)"
      by (rule exI)
    from a [of account_id] yes
    have "get_ads env sent account_id st limit
            = make_paginated_request env (''/'' @ account_id @ ''/ads'') sent (Some aps)"
      by simp
    then show "\<exists>ps. get_ads env sent account_id st limit
              = make_paginated_request env (''/'' @ account_id @ ''/ads'') sent (Some ps)"
      by (rule exI)
    from i [of account_id] yes
    have "get_account_insights env sent account_id args limit
            = make_paginated_request env (''/'' @ account_id @ ''/insights'') sent (Some ips)"
      by simp
    then show "\<exists>ps. get_account_insights env sent account_id args limit
              = make_paginated_request env (''/'' @ account_id @ ''/insights'') sent (Some ps)"
      by (rule exI)
  qed
qed

theorem account_id_prefix_witness:
  "take 4 ''123456'' \<noteq> ''act_''
   \<and> get_campaigns insights_env [] ''123456'' (Some [''ACTIVE'']) 100
     = get_campaigns insights_env [] ''act_123456'' (Some [''ACTIVE'']) 100
   \<and> (\<exists>ps. get_account_insights insights_env [] ''123456'' example_args 100
            = make_paginated_request insights_env ''/act_123456/insights'' [] (Some ps))
   \<and> take 4 ''act_123456'' = ''act_''
   \<and> (\<exists>ps. get_ads insights_env [] ''act_123456'' None 25
            = make_paginated_request insights_env ''/act_123456/ads'' [] (Some ps))"
proof -
  have no: "take 4 ''123456'' \<noteq> ''act_''" and yes: "take 4 ''act_123456'' = ''act_''"
    by simp_all
  note lacking = account_id_prefix [where account_id = "''123456''" and env = insights_env
      and sent = "[]" and st = "Some [''ACTIVE'']" and limit = 100 and args = example_args,
      THEN conjunct1, rule_format, OF no, simplified]
  note carrying = account_id_prefix [where account_id = "''act_123456''" and env = insights_env
      and sent = "[]" and st = None and limit = 25 and args = example_args,
      THEN conjunct2, rule_format, OF yes, simplified]
  from lacking
  have one: "get_campaigns insights_env [] ''123456'' (Some [''ACTIVE'']) 100
               = get_campaigns insights_env [] ''act_123456'' (Some [''ACTIVE'']) 100"
    by (elim conjE)
  from lacking
  have two: "\<exists>ps. get_account_insights insights_env [] ''123456'' example_args 100
               = make_paginated_request insights_env ''/act_123456/insights'' [] (Some ps)"
    by (elim conjE)
  from carrying
  have three: "\<exists>ps. get_ads insights_env [] ''act_123456'' None 25
               = make_paginated_request insights_env ''/act_123456/ads'' [] (Some ps)"
    by (elim conjE)
  from no one two yes three show ?thesis
    by (intro conjI)
qed

section \<open>Flattening the action lists\<close>




















section \<open>Malformed entries\<close>

lemma filter_drop_malformed:
  "filter (\<lambda>(k, v). k \<notin> set (map fst action_table)) (drop_malformed r)
     = filter (\<lambda>(k, v). k \<notin> set (map fst action_table)) r"
  by (induction r) (auto simp: drop_malformed_def)

lemma map_of_drop_malformed:
  assumes "key \<in> set (map fst action_table)"
  shows "map_of (drop_malformed r) key = map_option well_formed_only (map_of r key)"
proof (induction r)
  case Nil
  show ?case by (simp add: drop_malformed_def)
next
  case (Cons a r)
  then show ?case
    using assms by (cases a) (simp add: drop_malformed_def, blast)
qed

lemma flatten_entry_malformed:
  "\<not> well_formed e \<Longrightarrow> flatten_entry sanitize prefix out e = out"
  by (cases e) (auto split: option.splits json.splits)

lemma foldl_well_formed:
  "foldl (flatten_entry sanitize prefix) out (filter well_formed es)
     = foldl (flatten_entry sanitize prefix) out es"
  by (induction es arbitrary: out) (simp_all add: flatten_entry_malformed)

lemma entries_well_formed_only:
  "foldl (flatten_entry sanitize prefix) out (entries (well_formed_only v))
     = foldl (flatten_entry sanitize prefix) out (entries v)"
  by (cases v) (simp_all add: foldl_well_formed)

lemma flatten_key_drop_malformed:
  assumes "row \<in> set action_table"
  shows "flatten_key sanitize (drop_malformed r) out row = flatten_key sanitize r out row"
proof (cases row)
  case (Pair key prefix)
  with assms have "key \<in> set (map fst action_table)"
    by force
  then have "map_of (drop_malformed r) key = map_option well_formed_only (map_of r key)"
    by (rule map_of_drop_malformed)
  then show ?thesis
    by (cases "map_of r key") (simp_all add: Pair flatten_key_def entries_well_formed_only)
qed

lemma foldl_flatten_key_drop_malformed:
  "set table \<subseteq> set action_table \<Longrightarrow>
     foldl (flatten_key sanitize (drop_malformed r)) out table
       = foldl (flatten_key sanitize r) out table"
  by (induction table arbitrary: out) (simp_all add: flatten_key_drop_malformed)

lemma flatten_record_drop_malformed:
  "flatten_record sanitize (drop_malformed r) = flatten_record sanitize r"
  unfolding flatten_record_def filter_drop_malformed
  by (rule foldl_flatten_key_drop_malformed) simp

text \<open>
  Claim C7. Flattening a Record gives what flattening it without its malformed entries
  gives, so a malformed entry is skipped and everything else is flattened as it would be
  without it; an entry without \<open>action_type\<close> or without \<open>value\<close> leaves the output as
  it was; the result has one Record for each Record of the input, and the function is
  total, so nothing is raised. The Record of the specification, whose only action entry
  has no \<open>action_type\<close>, keeps its other key and loses \<open>actions\<close>.
\<close>

theorem malformed_entries_skipped:
  "flatten_record sanitize (drop_malformed r) = flatten_record sanitize r
   \<and> length (flatten_actions sanitize rows) = length rows
   \<and> (map_of e ''action_type'' = None \<or> map_of e ''value'' = None \<longrightarrow>
        flatten_entry sanitize prefix out (JObj e) = out)
   \<and> flatten_record sanitize
        [(''spend'', JStr ''10''),
         (''actions'', JArr [JObj [(''value'', JStr ''3'')]])]
      = [(''spend'', JStr ''10'')]"
proof -
  have skipped: "map_of e ''action_type'' = None \<or> map_of e ''value'' = None \<longrightarrow>
        flatten_entry sanitize prefix out (JObj e) = out"
    by (auto split: option.splits json.splits)
  have example: "flatten_record sanitize
        [(''spend'', JStr ''10''), (''actions'', JArr [JObj [(''value'', JStr ''3'')]])]
      = [(''spend'', JStr ''10'')]"
    by (simp add: flatten_record_def flatten_key_def action_table_def)
  from skipped example show ?thesis
    by (simp add: flatten_record_drop_malformed flatten_actions_def)
qed

theorem malformed_entries_skipped_witness:
  "map_of [(''value'', JStr ''3'')] ''action_type'' = None
   \<and> flatten_entry (\<lambda>t. t) ''action_'' [(''spend'', JStr ''10'')] (JObj [(''value'', JStr ''3'')])
     = [(''spend'', JStr ''10'')]
   \<and> flatten_record (\<lambda>t. t)
        [(''spend'', JStr ''10''),
         (''actions'', JArr [JObj [(''value'', JStr ''3'')],
                            JObj [(''action_type'', JStr ''purchase''), (''value'', JStr ''5'')]])]
     = [(''spend'', JStr ''10''), (''action_purchase'', JStr ''5'')]"
proof -
  let ?r = "[(''spend'', JStr ''10''),
             (''actions'', JArr [JObj [(''value'', JStr ''3'')],
                                JObj [(''action_type'', JStr ''purchase''), (''value'', JStr ''5'')]])]"
  have missing: "map_of [(''value'', JStr ''3'')] ''action_type'' = None"
    by simp
  have cleaned: "flatten_record (\<lambda>t. t) (drop_malformed ?r)
      = [(''spend'', JStr ''10''), (''action_purchase'', JStr ''5'')]"
    by code_simp
  note all = malformed_entries_skipped [where sanitize = "\<lambda>t. t" and r = "?r" and rows = "[?r]"
      and e = "[(''value'', JStr ''3'')]" and prefix = "''action_''" and out = "[(''spend'', JStr ''10'')]"]
  from all have same: "flatten_record (\<lambda>t. t) (drop_malformed ?r) = flatten_record (\<lambda>t. t) ?r"
    by (rule conjunct1)
  from all have "map_of [(''value'', JStr ''3'')] ''action_type'' = None
        \<or> map_of [(''value'', JStr ''3'')] ''value'' = None \<longrightarrow>
      flatten_entry (\<lambda>t. t) ''action_'' [(''spend'', JStr ''10'')] (JObj [(''value'', JStr ''3'')])
        = [(''spend'', JStr ''10'')]"
    by (elim conjE)
  with missing have skipped:
    "flatten_entry (\<lambda>t. t) ''action_'' [(''spend'', JStr ''10'')] (JObj [(''value'', JStr ''3'')])
       = [(''spend'', JStr ''10'')]"
    by (simp only: simp_thms)
  from same cleaned have "flatten_record (\<lambda>t. t) ?r
      = [(''spend'', JStr ''10''), (''action_purchase'', JStr ''5'')]"
    by (simp only:)
  with missing skipped show ?thesis
    by (intro conjI)
qed

section \<open>Numeric conversion\<close>

lemma parse_number_numeric:
  "parse_number s = Some n \<Longrightarrow> (\<exists>i. n = JInt i) \<or> (\<exists>f. n = JFloat f)"
  by (auto simp: parse_number_def Let_def split: prod.splits if_splits option.splits)

lemma convert_value_idem: "convert_value (convert_value v) = convert_value v"
proof (cases v)
  case (JStr s)
  show ?thesis
  proof (cases "parse_number s")
    case None
    with JStr show ?thesis by simp
  next
    case (Some n)
    with parse_number_numeric [OF Some] JStr show ?thesis by auto
  qed
qed simp_all

lemma convert_record_idem: "convert_record (convert_record r) = convert_record r"
  by (induction r) (auto simp: convert_record_def convert_value_idem)

text \<open>
  Claim C6. Converting twice gives what converting once gives. The text \<open>"12.50"\<close>
  becomes the float 12.5, the text \<open>"42"\<close> the integer 42, and \<open>"abc"\<close>, like every text
  that is not a number, stays; integers, floats, booleans, the null value, lists and
  dictionaries are left as they are.
\<close>

theorem convert_numeric_fields_idempotent:
  "convert_numeric_fields (convert_numeric_fields rows) = convert_numeric_fields rows
   \<and> convert_numeric_fields
       [[(''spend'', JStr ''12.50''), (''clicks'', JStr ''42''), (''name'', JStr ''abc'')]]
     = [[(''spend'', JFloat 12.5), (''clicks'', JInt 42), (''name'', JStr ''abc'')]]
   \<and> convert_value (JInt i) = JInt i \<and> convert_value (JFloat f) = JFloat f
   \<and> convert_value (JBool b) = JBool b \<and> convert_value JNull = JNull
   \<and> convert_value (JArr xs) = JArr xs \<and> convert_value (JObj kvs) = JObj kvs
   \<and> (parse_number s = None \<longrightarrow> convert_value (JStr s) = JStr s)"
proof -
  have idem: "convert_numeric_fields (convert_numeric_fields rows) = convert_numeric_fields rows"
    by (simp add: convert_numeric_fields_def convert_record_idem)
  have ex: "convert_numeric_fields
       [[(''spend'', JStr ''12.50''), (''clicks'', JStr ''42''), (''name'', JStr ''abc'')]]
     = [[(''spend'', JFloat 12.5), (''clicks'', JInt 42), (''name'', JStr ''abc'')]]"
    by code_simp
  from idem ex show ?thesis by simp
qed

theorem convert_numeric_fields_idempotent_witness:
  "parse_number ''abc'' = None \<and> convert_value (JStr ''abc'') = JStr ''abc''
   \<and> convert_numeric_fields (convert_numeric_fields [[(''spend'', JStr ''12.50'')]])
     = convert_numeric_fields [[(''spend'', JStr ''12.50'')]]"
proof -
  have none: "parse_number ''abc'' = None"
    by code_simp
  note all = convert_numeric_fields_idempotent
    [where s = "''abc''" and rows = "[[(''spend'', JStr ''12.50'')]]" and i = 42 and f = "12.5"
       and b = True and xs = "[]" and kvs = "[]"]
  from all have twice: "convert_numeric_fields (convert_numeric_fields [[(''spend'', JStr ''12.50'')]])
      = convert_numeric_fields [[(''spend'', JStr ''12.50'')]]"
    by (rule conjunct1)
  from all have "parse_number ''abc'' = None \<longrightarrow> convert_value (JStr ''abc'') = JStr ''abc''"
    by (elim conjE)
  from this none have "convert_value (JStr ''abc'') = JStr ''abc''"
    by (rule mp)
  with none twice show ?thesis
    by (intro conjI)
qed

end
